theory Spec2Isabelle
  imports Main "HOL-Library.AList" "HOL-Library.Sublist"
begin

section \<open>Values of the configuration document\<close>

text \<open>
  \<^verbatim>\<open>update.py\<close> reads \<^verbatim>\<open>apps.json\<close> with \<^verbatim>\<open>json.load\<close> and works on the Python
  values it returns: \<^verbatim>\<open>None\<close>, booleans, integers, floats, strings, lists and
  dictionaries. A dictionary is kept as an association list in insertion order
  (\<^verbatim>\<open>json.load\<close> has already resolved duplicate keys, so keys are looked up with
  \<open>map_of\<close>). The program only prints a float and tests its truth value, so a float is
  kept as the text \<^verbatim>\<open>repr\<close> gives for it (\<^verbatim>\<open>4.5\<close>, \<^verbatim>\<open>1e+22\<close>, \<^verbatim>\<open>nan\<close>). A string is a
  list of bytes: a character outside ASCII is the bytes of its UTF-8 encoding.
\<close>

datatype json =
    JNull
  | JBool bool
  | JInt int
  | JFloat string
  | JStr string
  | JArr "json list"
  | JObj "(string \<times> json) list"

datatype error =
    KeyError string
  | TypeError
  | AttributeError
  | AssertionError string
  | FileExistsError string
  | FileNotFoundError string
  | NotADirectoryError string
  | IsADirectoryError string
  | OSError string
  | CalledProcessError int string

text \<open>Sequencing of computations that may raise: the first exception wins.\<close>

definition ebind :: "error + 'a \<Rightarrow> ('a \<Rightarrow> error + 'b) \<Rightarrow> error + 'b" where
  "ebind m f = (case m of Inl e \<Rightarrow> Inl e | Inr x \<Rightarrow> f x)"

subsection \<open>Python's built-in operations on these values\<close>

definition squote :: string where
  "squote = [CHR 0x27]"

definition newline :: string where
  "newline = [CHR 0x0A]"

definition digit_char :: "nat \<Rightarrow> char" where
  "digit_char d = (''0123456789'' ! d)"

fun show_nat :: "nat \<Rightarrow> string" where
  "show_nat n = (if n < 10 then [digit_char n] else show_nat (n div 10) @ [digit_char (n mod 10)])"

declare show_nat.simps [simp del]

definition show_int :: "int \<Rightarrow> string" where
  "show_int i = (if i < 0 then ''-'' @ show_nat (nat (- i)) else show_nat (nat i))"

text \<open>\<^verbatim>\<open>sep.join(xs)\<close>\<close>

fun join_str :: "string \<Rightarrow> string list \<Rightarrow> string" where
  "join_str sep [] = []"
| "join_str sep [x] = x"
| "join_str sep (x # y # ys) = x @ sep @ join_str sep (y # ys)"

text \<open>
  \<^verbatim>\<open>repr\<close> of a string: between double quotes when it holds a single quote and no
  double quote, else between single quotes; the quote in use and the backslash are
  escaped with a backslash, tab, newline and carriage return are written \<^verbatim>\<open>\t\<close>,
  \<^verbatim>\<open>\n\<close>, \<^verbatim>\<open>\r\<close>, and the other control characters \<^verbatim>\<open>\xNN\<close>. Bytes above
  \<^verbatim>\<open>0x7f\<close> are left as they are (the UTF-8 encoding of printable characters).
\<close>

definition hex_digit :: "nat \<Rightarrow> char" where
  "hex_digit d = (''0123456789abcdef'' ! d)"

definition escape_char :: "char \<Rightarrow> char \<Rightarrow> string" where
  "escape_char q c =
     (if c = q \<or> c = CHR 0x5C then [CHR 0x5C, c]
      else if c = CHR 0x09 then [CHR 0x5C, CHR ''t'']
      else if c = CHR 0x0A then [CHR 0x5C, CHR ''n'']
      else if c = CHR 0x0D then [CHR 0x5C, CHR ''r'']
      else if (of_char c :: nat) < 32 \<or> c = CHR 0x7F
        then [CHR 0x5C, CHR ''x'', hex_digit (of_char c div 16), hex_digit (of_char c mod 16)]
      else [c])"

definition repr_str :: "string \<Rightarrow> string" where
  "repr_str s =
     (let q = (if CHR 0x27 \<in> set s \<and> CHR 0x22 \<notin> set s then CHR 0x22 else CHR 0x27)
      in q # concat (map (escape_char q) s) @ [q])"

text \<open>\<^verbatim>\<open>repr\<close> and \<^verbatim>\<open>str\<close> of a value.\<close>

fun py_repr :: "json \<Rightarrow> string" where
  "py_repr JNull = ''None''"
| "py_repr (JBool b) = (if b then ''True'' else ''False'')"
| "py_repr (JInt i) = show_int i"
| "py_repr (JFloat text) = text"
| "py_repr (JStr s) = repr_str s"
| "py_repr (JArr xs) = ''['' @ join_str '', '' (map py_repr xs) @ '']''"
| "py_repr (JObj kvs) =
     ''{'' @ join_str '', '' (map (\<lambda>kv. repr_str (fst kv) @ '': '' @ py_repr (snd kv)) kvs) @ ''}''"

definition py_str :: "json \<Rightarrow> string" where
  "py_str v = (case v of JStr s \<Rightarrow> s | _ \<Rightarrow> py_repr v)"

text \<open>\<^verbatim>\<open>str.lower\<close>: ASCII letters are lowered, bytes above \<^verbatim>\<open>0x7f\<close> are left alone.\<close>

definition lower_char :: "char \<Rightarrow> char" where
  "lower_char c =
     (case map_of (zip ''ABCDEFGHIJKLMNOPQRSTUVWXYZ'' ''abcdefghijklmnopqrstuvwxyz'') c of
        Some d \<Rightarrow> d
      | None \<Rightarrow> c)"

definition py_lower :: "string \<Rightarrow> string" where
  "py_lower s = map lower_char s"

text \<open>Truth value of an object in a condition (\<^verbatim>\<open>if x:\<close>).\<close>

fun py_truthy :: "json \<Rightarrow> bool" where
  "py_truthy JNull = False"
| "py_truthy (JBool b) = b"
| "py_truthy (JInt i) = (i \<noteq> 0)"
| "py_truthy (JFloat text) = (text \<noteq> ''0.0'' \<and> text \<noteq> ''-0.0'')"
| "py_truthy (JStr s) = (s \<noteq> [])"
| "py_truthy (JArr xs) = (xs \<noteq> [])"
| "py_truthy (JObj kvs) = (kvs \<noteq> [])"

text \<open>\<^verbatim>\<open>obj[key]\<close> for a string key: only a dictionary can be subscripted by a string.\<close>

definition py_getitem :: "json \<Rightarrow> string \<Rightarrow> error + json" where
  "py_getitem obj k =
     (case obj of
        JObj kvs \<Rightarrow> (case map_of kvs k of None \<Rightarrow> Inl (KeyError k) | Some v \<Rightarrow> Inr v)
      | _ \<Rightarrow> Inl TypeError)"

text \<open>
  \<^verbatim>\<open>obj.get(key, default)\<close>. Python looks the method up first (only a dictionary
  has it), then evaluates the default expression, which may itself raise, then calls.
\<close>

definition py_get :: "json \<Rightarrow> string \<Rightarrow> error + json \<Rightarrow> error + json" where
  "py_get obj k dflt =
     (case obj of
        JObj kvs \<Rightarrow> ebind dflt (\<lambda>d. Inr (case map_of kvs k of None \<Rightarrow> d | Some v \<Rightarrow> v))
      | _ \<Rightarrow> Inl AttributeError)"

text \<open>\<^verbatim>\<open>sub in s\<close> on strings: \<open>sub\<close> occurs in \<open>s\<close> as a contiguous block.\<close>

fun contains :: "string \<Rightarrow> string \<Rightarrow> bool" where
  "contains sub [] = (sub = [])"
| "contains sub (c # cs) = (prefix sub (c # cs) \<or> contains sub cs)"

text \<open>
  \<^verbatim>\<open>key in obj\<close> for a string key: key membership in a dictionary, element
  membership in a list, substring test on a string, TypeError on anything else.
\<close>

definition py_in :: "string \<Rightarrow> json \<Rightarrow> error + bool" where
  "py_in k obj =
     (case obj of
        JObj kvs \<Rightarrow> Inr (map_of kvs k \<noteq> None)
      | JArr xs \<Rightarrow> Inr (JStr k \<in> set xs)
      | JStr s \<Rightarrow> Inr (contains k s)
      | _ \<Rightarrow> Inl TypeError)"

text \<open>Iteration (\<^verbatim>\<open>for x in obj\<close>): a dictionary yields its keys, a string its characters.\<close>

definition py_iter :: "json \<Rightarrow> error + json list" where
  "py_iter obj =
     (case obj of
        JArr xs \<Rightarrow> Inr xs
      | JObj kvs \<Rightarrow> Inr (map (\<lambda>kv. JStr (fst kv)) kvs)
      | JStr s \<Rightarrow> Inr (map (\<lambda>c. JStr [c]) s)
      | _ \<Rightarrow> Inl TypeError)"

text \<open>\<^verbatim>\<open>os.path.join(a, b)\<close> (posixpath) for two components.\<close>

definition path_join :: "string \<Rightarrow> string \<Rightarrow> string" where
  "path_join a b =
     (if b \<noteq> [] \<and> hd b = CHR ''/'' then b
      else if a = [] \<or> last a = CHR ''/'' then a @ b
      else a @ ''/'' @ b)"

text \<open>The same with a component taken from the document: anything but a string is a TypeError.\<close>

definition os_path_join :: "string \<Rightarrow> json \<Rightarrow> error + string" where
  "os_path_join a v = (case v of JStr b \<Rightarrow> Inr (path_join a b) | _ \<Rightarrow> Inl TypeError)"

section \<open>load\_apps: the sanity check of the document\<close>

definition base_keys :: "string list" where
  "base_keys = [''app_type'', ''git_url'', ''git_dir'', ''git_branch'', ''vm_image'', ''use_custom_image_file'']"

definition app_keys :: "string list" where
  "app_keys = [''app_name'', ''title'', ''name'', ''cpu'', ''memory'']"

text \<open>
  \<^verbatim>\<open>for key in (...): assert key in data['base'], f"Base missing required attribute: {key}"\<close>
\<close>

fun check_base :: "json \<Rightarrow> string list \<Rightarrow> error + unit" where
  "check_base data [] = Inr ()"
| "check_base data (k # ks) =
     ebind (py_getitem data ''base'') (\<lambda>b.
     ebind (py_in k b) (\<lambda>present.
       if present then check_base data ks
       else Inl (AssertionError (''Base missing required attribute: '' @ k))))"

text \<open>
  \<^verbatim>\<open>for key in (...): assert key in app, f"App {i} is missing required attribute: {key} {app}"\<close>
\<close>

fun check_app :: "nat \<Rightarrow> json \<Rightarrow> string list \<Rightarrow> error + unit" where
  "check_app i app [] = Inr ()"
| "check_app i app (k # ks) =
     ebind (py_in k app) (\<lambda>present.
       if present then check_app i app ks
       else Inl (AssertionError
              (''App '' @ show_nat i @ '' is missing required attribute: '' @ k @ '' '' @ py_str app)))"

text \<open>\<^verbatim>\<open>for i, app in enumerate(data['apps']): ...\<close>\<close>

fun check_apps :: "nat \<Rightarrow> json list \<Rightarrow> error + unit" where
  "check_apps i [] = Inr ()"
| "check_apps i (app # rest) = ebind (check_app i app app_keys) (\<lambda>_. check_apps (Suc i) rest)"

text \<open>
  \<open>load_apps\<close> takes the value \<^verbatim>\<open>json.load\<close> returned for \<^verbatim>\<open>apps.json\<close>; opening and
  parsing the file happen before anything modelled here.
\<close>

definition load_apps :: "json \<Rightarrow> error + json" where
  "load_apps data =
     ebind (check_base data base_keys) (\<lambda>_.
     ebind (py_getitem data ''apps'') (\<lambda>apps.
     ebind (py_iter apps) (\<lambda>xs.
     ebind (check_apps 0 xs) (\<lambda>_.
     Inr data))))"

section \<open>The substitution variables of one app\<close>

text \<open>
  Lines 53 to 94 of \<^verbatim>\<open>update_form_and_manifest\<close>: the values read from the app and
  the base, in the order the source reads them, and the list \<^verbatim>\<open>erb_vars\<close> built from
  them. This part touches no file.
\<close>

definition erb_vars :: "json \<Rightarrow> json \<Rightarrow> error + string list" where
  "erb_vars base app =
     ebind (py_getitem app ''title'') (\<lambda>title.
     ebind (py_getitem app ''name'') (\<lambda>name.
     ebind (py_get app ''use_custom_image_file'' (py_getitem base ''use_custom_image_file''))
       (\<lambda>use_custom_image_file.
     ebind (py_get app ''vm_image'' (py_getitem base ''vm_image'')) (\<lambda>vm_image.
     ebind (py_get vm_image ''select'' (Inr (JBool False))) (\<lambda>base_image_select.
     ebind (py_get vm_image ''base_image'' (Inr JNull)) (\<lambda>base_image.
     ebind (py_get app ''memory'' (Inr (JObj []))) (\<lambda>memory.
     ebind (py_getitem memory ''value'') (\<lambda>memory_value.
     ebind (py_get memory ''select'' (Inr (JBool False))) (\<lambda>memory_select.
     ebind (py_get memory ''min'' (Inr JNull)) (\<lambda>memory_min.
     ebind (py_get memory ''max'' (Inr JNull)) (\<lambda>memory_max.
     ebind (py_get app ''cpu'' (Inr (JObj []))) (\<lambda>cpu.
     ebind (py_getitem cpu ''value'') (\<lambda>cpu_value.
     ebind (py_get cpu ''select'' (Inr (JBool False))) (\<lambda>cpu_select.
     ebind (py_get cpu ''min'' (Inr JNull)) (\<lambda>cpu_min.
     ebind (py_get cpu ''max'' (Inr JNull)) (\<lambda>cpu_max.
     Inr (
       [''@title = '' @ squote @ py_str title @ squote,
        ''@name = '' @ squote @ py_str name @ squote]
       @ (if py_truthy memory_select then
            [''@custom_memory_per_node_select = true'',
             ''@custom_memory_per_node_min = '' @ py_str memory_min,
             ''@custom_memory_per_node_max = '' @ py_str memory_max]
          else [])
       @ [''@custom_memory_per_node = '' @ py_str memory_value]
       @ (if py_truthy cpu_select then
            [''@custom_num_cores_select = true'',
             ''@custom_num_cores_min = '' @ py_str cpu_min,
             ''@custom_num_cores_max = '' @ py_str cpu_max]
          else [])
       @ [''@custom_num_cores = '' @ py_str cpu_value]
       @ (if \<not> py_truthy base_image_select then
            [''@base_image_select = false'',
             ''@base_image = '' @ py_str base_image]
          else [''@base_image_select = true''])
       @ [''@use_custom_image_file = '' @ py_lower (py_str use_custom_image_file)])
     ))))))))))))))))"

section \<open>The operating system\<close>

text \<open>
  The program reaches the file system through \<^verbatim>\<open>os.path.exists\<close>, \<^verbatim>\<open>os.makedirs\<close>,
  \<^verbatim>\<open>open(..., "w")\<close> and \<^verbatim>\<open>subprocess.check_call(cmd, shell=True)\<close>. What these calls
  answer and do is decided by the operating system, the shell and the installed tools, not
  by the program. They are therefore parameters of the model: an environment gives, for
  each of the four calls, its result and the file system it leaves, and every property of
  the program below is proved for all environments. The shell receives the command line as
  the text the source formats, blanks and metacharacters included.

  The file system is a tree: a regular file with its text, a symbolic link with its target,
  or a directory with its entries.
\<close>

type_synonym path = "string list"

datatype node =
    File string
  | Symlink string
  | Dir "(string \<times> node) list"

text \<open>
  \<open>root_dir\<close> is \<^verbatim>\<open>ROOT_DIR\<close>. \<open>sys_exists\<close> is \<^verbatim>\<open>os.path.exists\<close>. \<open>sys_makedirs\<close> is
  \<^verbatim>\<open>os.makedirs\<close> and \<open>sys_write\<close> is \<^verbatim>\<open>open(name, "w")\<close> followed by one \<^verbatim>\<open>write\<close>: the
  exception raised, if any, and the file system left (a call that fails may have changed
  it). \<open>sys_shell\<close> is \<^verbatim>\<open>/bin/sh -c\<close>: the exit status and the file system left.
\<close>

record env =
  root_dir :: string
  sys_exists :: "node \<Rightarrow> string \<Rightarrow> bool"
  sys_makedirs :: "node \<Rightarrow> string \<Rightarrow> error option \<times> node"
  sys_write :: "node \<Rightarrow> string \<Rightarrow> string \<Rightarrow> error option \<times> node"
  sys_shell :: "node \<Rightarrow> string \<Rightarrow> int \<times> node"

section \<open>The program\<close>

text \<open>
  The state of a run is the file system and the sequence of calls made so far
  (existence tests, directory creations, file writes, shell commands, printed lines).
  A function of the program takes the state and returns its result, or the exception
  it raised, with the new state.
\<close>

datatype event =
    Exists string
  | Makedirs string
  | Write string string
  | Shell string
  | Print string

record world =
  fs :: node
  trace :: "event list"

type_synonym 'a prog = "world \<Rightarrow> (error + 'a) \<times> world"

definition preturn :: "'a \<Rightarrow> 'a prog" where
  "preturn x w = (Inr x, w)"

definition plift :: "error + 'a \<Rightarrow> 'a prog" where
  "plift r w = (r, w)"

definition pbind :: "'a prog \<Rightarrow> ('a \<Rightarrow> 'b prog) \<Rightarrow> 'b prog" where
  "pbind m f w = (case m w of (Inl e, w') \<Rightarrow> (Inl e, w') | (Inr x, w') \<Rightarrow> f x w')"

fun for_each :: "'a list \<Rightarrow> ('a \<Rightarrow> unit prog) \<Rightarrow> unit prog" where
  "for_each [] f = preturn ()"
| "for_each (x # xs) f = pbind (f x) (\<lambda>_. for_each xs f)"

definition os_path_exists :: "env \<Rightarrow> string \<Rightarrow> bool prog" where
  "os_path_exists E name w =
     (Inr (sys_exists E (fs w) name), w\<lparr>trace := trace w @ [Exists name]\<rparr>)"

definition os_makedirs :: "env \<Rightarrow> string \<Rightarrow> unit prog" where
  "os_makedirs E name w =
     (case sys_makedirs E (fs w) name of
        (raised, t) \<Rightarrow>
          (case raised of None \<Rightarrow> Inr () | Some e \<Rightarrow> Inl e,
           w\<lparr>fs := t, trace := trace w @ [Makedirs name]\<rparr>))"

text \<open>\<^verbatim>\<open>with open(name, "w") as f: f.write(text)\<close>\<close>

definition write_file :: "env \<Rightarrow> string \<Rightarrow> string \<Rightarrow> unit prog" where
  "write_file E name text w =
     (case sys_write E (fs w) name text of
        (raised, t) \<Rightarrow>
          (case raised of None \<Rightarrow> Inr () | Some e \<Rightarrow> Inl e,
           w\<lparr>fs := t, trace := trace w @ [Write name text]\<rparr>))"

definition print :: "string \<Rightarrow> unit prog" where
  "print line w = (Inr (), w\<lparr>trace := trace w @ [Print line]\<rparr>)"

text \<open>
  \<^verbatim>\<open>subprocess.check_call(cmd, shell=True)\<close>: CalledProcessError when the exit status
  is not zero.
\<close>

definition exec_shell :: "env \<Rightarrow> string \<Rightarrow> unit prog" where
  "exec_shell E cmd w =
     (case sys_shell E (fs w) cmd of
        (status, t) \<Rightarrow>
          (if status = 0 then Inr () else Inl (CalledProcessError status cmd),
           w\<lparr>fs := t, trace := trace w @ [Shell cmd]\<rparr>))"

definition APPS_DIR :: "env \<Rightarrow> string" where
  "APPS_DIR E = path_join (root_dir E) ''apps''"

definition copy_base_repo :: "env \<Rightarrow> json \<Rightarrow> json \<Rightarrow> unit prog" where
  "copy_base_repo E base app =
     pbind (plift (py_getitem base ''git_dir'')) (\<lambda>git_dir.
     pbind (plift (os_path_join (root_dir E) git_dir)) (\<lambda>base_dir.
     pbind (os_path_exists E base_dir) (\<lambda>present.
     pbind (if \<not> present then
              pbind (plift (py_getitem base ''git_branch'')) (\<lambda>branch.
              pbind (plift (py_getitem base ''git_url'')) (\<lambda>url.
              exec_shell E (''git clone --single-branch --branch '' @ py_str branch @ '' ''
                            @ py_str url @ '' '' @ base_dir)))
            else preturn ()) (\<lambda>_.
     pbind (plift (py_getitem app ''app_name'')) (\<lambda>app_name.
     pbind (plift (os_path_join (APPS_DIR E) app_name)) (\<lambda>app_dir.
     for_each [''form.yml.erb'', ''manifest.yml.erb'', ''submit.yml.erb'', ''template'']
       (\<lambda>filename. exec_shell E (''cp -R '' @ base_dir @ ''/'' @ filename @ '' ''
                                  @ app_dir @ ''/'' @ filename))))))))"

text \<open>
  \<^verbatim>\<open>update_form_and_manifest\<close>: lines 50 and 51, the variables (lines 53 to 94, see
  \<open>erb_vars\<close>), then the variables file, the two renders and the cleanup.
\<close>

definition update_form_and_manifest :: "env \<Rightarrow> json \<Rightarrow> json \<Rightarrow> unit prog" where
  "update_form_and_manifest E base app =
     pbind (plift (py_getitem base ''app_type'')) (\<lambda>app_type.
     pbind (plift (py_getitem app ''app_name'')) (\<lambda>app_name.
     pbind (plift (os_path_join (APPS_DIR E) app_name)) (\<lambda>app_dir.
     pbind (plift (erb_vars base app)) (\<lambda>vars.
     pbind (write_file E (path_join app_dir ''vars.rb'') (join_str newline vars @ newline)) (\<lambda>_.
     pbind (exec_shell E (''erb -T - -r '' @ path_join app_dir ''vars.rb'' @ '' '' @ app_dir
                          @ ''/form.yml.erb > '' @ app_dir @ ''/form.yml'')) (\<lambda>_.
     pbind (exec_shell E (''erb -T - -r '' @ path_join app_dir ''vars.rb'' @ '' '' @ app_dir
                          @ ''/manifest.yml.erb > '' @ app_dir @ ''/manifest.yml'')) (\<lambda>_.
     pbind (exec_shell E (''rm '' @ app_dir @ ''/form.yml.erb'')) (\<lambda>_.
     pbind (exec_shell E (''rm '' @ app_dir @ ''/manifest.yml.erb'')) (\<lambda>_.
     exec_shell E (''rm '' @ path_join app_dir ''vars.rb''))))))))))"

definition create_app :: "env \<Rightarrow> json \<Rightarrow> json \<Rightarrow> bool prog" where
  "create_app E base app =
     pbind (plift (py_getitem app ''app_name'')) (\<lambda>app_name.
     pbind (plift (os_path_join (APPS_DIR E) app_name)) (\<lambda>dest.
     pbind (os_path_exists E dest) (\<lambda>present.
       if present then preturn False
       else
         pbind (os_makedirs E dest) (\<lambda>_.
         pbind (copy_base_repo E base app) (\<lambda>_.
         pbind (update_form_and_manifest E base app) (\<lambda>_.
         preturn True))))))"

text \<open>The loop of \<^verbatim>\<open>main\<close> over \<^verbatim>\<open>data['apps']\<close>.\<close>

fun main_loop :: "env \<Rightarrow> json \<Rightarrow> json list \<Rightarrow> unit prog" where
  "main_loop E data [] = preturn ()"
| "main_loop E data (app # rest) =
     pbind (plift (py_getitem data ''base'')) (\<lambda>base.
     pbind (create_app E base app) (\<lambda>created.
     pbind (plift (py_getitem app ''app_name'')) (\<lambda>app_name.
     pbind (print (if created then ''Created '' @ py_str app_name
                   else ''Skipped '' @ py_str app_name @ '' -- already created'')) (\<lambda>_.
     main_loop E data rest))))"

text \<open>
  \<^verbatim>\<open>main\<close>, given the value \<^verbatim>\<open>json.load\<close> returned for \<^verbatim>\<open>apps.json\<close>.
\<close>

definition main :: "env \<Rightarrow> json \<Rightarrow> unit prog" where
  "main E doc =
     pbind (plift (load_apps doc)) (\<lambda>data.
     pbind (plift (py_getitem data ''apps'')) (\<lambda>apps.
     pbind (plift (py_iter apps)) (\<lambda>xs.
     main_loop E data xs)))"


section \<open>A file system for the examples\<close>

text \<open>
  One environment, used to run the program in the examples: path resolution as the
  kernel does it (every symbolic link on the way is followed, up to 40 of them, a relative
  target from the directory of the link; \<^verbatim>\<open>..\<close> is the parent of the directory reached;
  a trailing slash asks for a directory), \<^verbatim>\<open>os.makedirs\<close> as the Python library
  defines it over \<^verbatim>\<open>mkdir\<close>, and a shell that runs the four command lines of the program
  when their words are plain. Paths are resolved from the root directory.
\<close>

fun split_acc :: "char \<Rightarrow> string \<Rightarrow> string \<Rightarrow> string list" where
  "split_acc sep cur [] = (if cur = [] then [] else [cur])"
| "split_acc sep cur (c # cs) =
     (if c = sep then (if cur = [] then split_acc sep [] cs else cur # split_acc sep [] cs)
      else split_acc sep (cur @ [c]) cs)"

text \<open>The components of a path, split at slashes; empty components are dropped.\<close>

definition comps :: "string \<Rightarrow> string list" where
  "comps s = split_acc (CHR ''/'') [] s"

definition absolute :: "string \<Rightarrow> bool" where
  "absolute s = (s \<noteq> [] \<and> hd s = CHR ''/'')"

fun lookup :: "node \<Rightarrow> path \<Rightarrow> node option" where
  "lookup n [] = Some n"
| "lookup n (c # p) =
     (case n of
        Dir es \<Rightarrow> (case map_of es c of None \<Rightarrow> None | Some m \<Rightarrow> lookup m p)
      | _ \<Rightarrow> None)"

text \<open>\<open>put_p p new t\<close> places \<open>new\<close> at \<open>p\<close>; \<open>del p t\<close> removes the entry at \<open>p\<close>.\<close>

fun put_p :: "path \<Rightarrow> node \<Rightarrow> node \<Rightarrow> node" where
  "put_p [] new n = new"
| "put_p (c # p) new n =
     (case n of
        Dir es \<Rightarrow>
          Dir (AList.update c (put_p p new (case map_of es c of Some m \<Rightarrow> m | None \<Rightarrow> Dir [])) es)
      | _ \<Rightarrow> n)"

fun del :: "path \<Rightarrow> node \<Rightarrow> node" where
  "del [] n = n"
| "del (c # p) n =
     (case n of
        Dir es \<Rightarrow>
          (if p = [] then Dir (AList.delete c es)
           else (case map_of es c of
                   Some m \<Rightarrow> Dir (AList.update c (del p m) es)
                 | None \<Rightarrow> n))
      | _ \<Rightarrow> n)"

datatype errno = ENOENT | ENOTDIR | ELOOP

text \<open>
  \<open>walk k t cur cs\<close>: the place the components \<open>cs\<close> lead to from the directory \<open>cur\<close>,
  with \<open>k\<close> symbolic links still allowed.
\<close>

function walk :: "nat \<Rightarrow> node \<Rightarrow> path \<Rightarrow> string list \<Rightarrow> errno + path" where
  "walk k t cur [] = Inr cur"
| "walk k t cur (c # cs) =
     (if c = ''.'' then walk k t cur cs
      else if c = ''..'' then walk k t (butlast cur) cs
      else
        (case lookup t (cur @ [c]) of
           None \<Rightarrow> Inl ENOENT
         | Some (File text) \<Rightarrow> (if cs = [] then Inr (cur @ [c]) else Inl ENOTDIR)
         | Some (Dir es) \<Rightarrow> walk k t (cur @ [c]) cs
         | Some (Symlink target) \<Rightarrow>
             (if target = [] then Inl ENOENT
              else if k = 0 then Inl ELOOP
              else walk (k - 1) t (if absolute target then [] else cur) (comps target @ cs))))"
  by pat_completeness auto
termination
  by (relation "measures [\<lambda>(k, t, cur, cs). k, \<lambda>(k, t, cur, cs). length cs]") auto

declare walk.simps [simp del]

definition errno_error :: "errno \<Rightarrow> string \<Rightarrow> error" where
  "errno_error e name =
     (case e of ENOENT \<Rightarrow> FileNotFoundError name
      | ENOTDIR \<Rightarrow> NotADirectoryError name
      | ELOOP \<Rightarrow> OSError name)"

text \<open>\<^verbatim>\<open>stat\<close> and \<^verbatim>\<open>os.path.exists\<close>, which is true when \<^verbatim>\<open>stat\<close> succeeds.\<close>

definition posix_stat :: "node \<Rightarrow> string \<Rightarrow> node option" where
  "posix_stat t name =
     (if name = [] then None
      else
        (case walk 40 t [] (comps name) of
           Inl e \<Rightarrow> None
         | Inr p \<Rightarrow>
             (case lookup t p of
                Some (Dir es) \<Rightarrow> Some (Dir es)
              | Some n \<Rightarrow> (if last name = CHR ''/'' then None else Some n)
              | None \<Rightarrow> None)))"

definition posix_exists :: "node \<Rightarrow> string \<Rightarrow> bool" where
  "posix_exists t name = (posix_stat t name \<noteq> None)"

text \<open>
  \<^verbatim>\<open>mkdir(name)\<close>: the directory above must resolve to a directory; EEXIST when
  anything, a dangling link included, is already there.
\<close>

definition posix_mkdir :: "node \<Rightarrow> string \<Rightarrow> error option \<times> node" where
  "posix_mkdir t name =
     (case comps name of
        [] \<Rightarrow> (Some (if name = [] then FileNotFoundError name else FileExistsError name), t)
      | c # cs \<Rightarrow>
          (case walk 40 t [] (butlast (c # cs)) of
             Inl e \<Rightarrow> (Some (errno_error e name), t)
           | Inr p \<Rightarrow>
               (case lookup t p of
                  Some (Dir es) \<Rightarrow>
                    (if last (c # cs) = ''.'' \<or> last (c # cs) = ''..''
                        \<or> map_of es (last (c # cs)) \<noteq> None
                     then (Some (FileExistsError name), t)
                     else (None, put_p (p @ [last (c # cs)]) (Dir []) t))
                | _ \<Rightarrow> (Some (NotADirectoryError name), t))))"

text \<open>\<^verbatim>\<open>posixpath.split\<close>, and the head and tail \<^verbatim>\<open>os.makedirs\<close> works with.\<close>

definition py_split :: "string \<Rightarrow> string \<times> string" where
  "py_split p =
     (let tail = rev (takeWhile (\<lambda>c. c \<noteq> CHR ''/'') (rev p));
          head = take (length p - length tail) p
      in (if head \<noteq> [] \<and> \<not> list_all (\<lambda>c. c = CHR ''/'') head
          then rev (dropWhile (\<lambda>c. c = CHR ''/'') (rev head)) else head,
          tail))"

definition mk_parts :: "string \<Rightarrow> string \<times> string" where
  "mk_parts name =
     (case py_split name of (head, tail) \<Rightarrow> if tail = [] then py_split head else (head, tail))"

text \<open>
  \<^verbatim>\<open>os.makedirs(name)\<close> with its defaults: the missing directories above are made first,
  a FileExistsError from that is swallowed, then \<^verbatim>\<open>mkdir(name)\<close>.
\<close>

function posix_makedirs :: "node \<Rightarrow> string \<Rightarrow> error option \<times> node" where
  "posix_makedirs t name =
     (if fst (mk_parts name) \<noteq> [] \<and> snd (mk_parts name) \<noteq> []
         \<and> \<not> posix_exists t (fst (mk_parts name))
      then
        (case posix_makedirs t (fst (mk_parts name)) of
           (None, t1) \<Rightarrow>
             if snd (mk_parts name) = ''.'' then (None, t1) else posix_mkdir t1 name
         | (Some (FileExistsError x), t1) \<Rightarrow>
             if snd (mk_parts name) = ''.'' then (None, t1) else posix_mkdir t1 name
         | (Some e, t1) \<Rightarrow> (Some e, t1))
      else posix_mkdir t name)"
  by pat_completeness auto
termination
proof (relation "measure (\<lambda>(t, name). length name)")
  show "wf (measure (\<lambda>(t, name). length name))"
    by simp
next
  fix t :: node and name :: string
  have split_le: "length (fst (py_split p)) + length (snd (py_split p)) \<le> length p" for p
  proof -
    define tail where "tail = rev (takeWhile (\<lambda>c. c \<noteq> CHR ''/'') (rev p))"
    define head where "head = take (length p - length tail) p"
    have "length tail \<le> length p"
      using length_takeWhile_le [of "\<lambda>c. c \<noteq> CHR ''/''" "rev p"] by (simp add: tail_def)
    then have "length head + length tail \<le> length p"
      by (simp add: head_def)
    moreover have "length (rev (dropWhile (\<lambda>c. c = CHR ''/'') (rev head))) \<le> length head"
      using length_dropWhile_le [of "\<lambda>c. c = CHR ''/''" "rev head"] by simp
    moreover have "py_split p =
        (if head \<noteq> [] \<and> \<not> list_all (\<lambda>c. c = CHR ''/'') head
         then rev (dropWhile (\<lambda>c. c = CHR ''/'') (rev head)) else head, tail)"
      by (simp add: py_split_def Let_def tail_def head_def)
    ultimately show ?thesis
      by (simp del: length_rev)
  qed
  assume "fst (mk_parts name) \<noteq> [] \<and> snd (mk_parts name) \<noteq> []
            \<and> \<not> posix_exists t (fst (mk_parts name))"
  then have "snd (mk_parts name) \<noteq> []"
    by simp
  then have tail: "0 < length (snd (mk_parts name))"
    by (cases "snd (mk_parts name)") simp_all
  have "length (fst (mk_parts name)) + length (snd (mk_parts name)) \<le> length name"
    using split_le [of name] split_le [of "fst (py_split name)"]
    by (auto simp: mk_parts_def split: prod.splits if_splits)
  with tail have "length (fst (mk_parts name)) < length name"
    by arith
  then show "((t, fst (mk_parts name)), (t, name)) \<in> measure (\<lambda>(t, name). length name)"
    by simp
qed

declare posix_makedirs.simps [simp del]

text \<open>
  \<^verbatim>\<open>open(name, "w")\<close> and one \<^verbatim>\<open>write\<close>: the file is created or replaced, through the
  symbolic links that lead to it.
\<close>

function open_w :: "nat \<Rightarrow> node \<Rightarrow> path \<Rightarrow> string list \<Rightarrow> string \<Rightarrow> string
    \<Rightarrow> error option \<times> node" where
  "open_w k t cur cs name text =
     (if cs = [] then (Some (IsADirectoryError name), t)
      else
        (case walk k t cur (butlast cs) of
           Inl e \<Rightarrow> (Some (errno_error e name), t)
         | Inr p \<Rightarrow>
             (case lookup t p of
                Some (Dir es) \<Rightarrow>
                  (if last cs = ''.'' \<or> last cs = ''..'' then (Some (IsADirectoryError name), t)
                   else
                     (case map_of es (last cs) of
                        None \<Rightarrow> (None, put_p (p @ [last cs]) (File text) t)
                      | Some (File old) \<Rightarrow> (None, put_p (p @ [last cs]) (File text) t)
                      | Some (Dir ds) \<Rightarrow> (Some (IsADirectoryError name), t)
                      | Some (Symlink target) \<Rightarrow>
                          (if target = [] then (Some (FileNotFoundError name), t)
                           else if k = 0 then (Some (OSError name), t)
                           else open_w (k - 1) t (if absolute target then [] else p)
                                  (comps target) name text)))
              | _ \<Rightarrow> (Some (NotADirectoryError name), t))))"
  by pat_completeness auto
termination
  by (relation "measure (\<lambda>(k, t, cur, cs, name, text). k)") auto

declare open_w.simps [simp del]

definition posix_write :: "node \<Rightarrow> string \<Rightarrow> string \<Rightarrow> error option \<times> node" where
  "posix_write t name text =
     (if name = [] then (Some (FileNotFoundError name), t)
      else if last name = CHR ''/'' then (Some (IsADirectoryError name), t)
      else open_w 40 t [] (comps name) name text)"

definition read_file :: "node \<Rightarrow> string \<Rightarrow> string option" where
  "read_file t name = (case posix_stat t name of Some (File text) \<Rightarrow> Some text | _ \<Rightarrow> None)"

subsection \<open>The shell\<close>

text \<open>
  The command line is split at blanks. A word is plain when the shell passes it on as it
  is and the tool takes it as a file name: letters, digits and \<^verbatim>\<open>/ . _ - : @ + ,\<close> only, no
  leading dash, no trailing slash. The four command shapes of the program are run on
  plain words; every other command line is left to the parameter \<open>other\<close>. A tool answers
  \<open>None\<close> for a case that is not modelled, which is left to \<open>other\<close> as well.
\<close>

definition sh_words :: "string \<Rightarrow> string list" where
  "sh_words s = split_acc (CHR '' '') [] s"

fun member_c :: "char \<Rightarrow> string \<Rightarrow> bool" where
  "member_c c [] = False"
| "member_c c (d # ds) = (if c = d then True else member_c c ds)"

definition plain_char :: "char \<Rightarrow> bool" where
  "plain_char c =
     member_c c ''/.aeiorstnlmpcdubfghjkqvwxyz_-0123456789:@+,ABCDEFGHIJKLMNOPQRSTUVWXYZ''"

fun all_plain :: "string \<Rightarrow> bool" where
  "all_plain [] = True"
| "all_plain (c # cs) = (if plain_char c then all_plain cs else False)"

definition plain_word :: "string \<Rightarrow> bool" where
  "plain_word w =
     (if w = [] then False
      else if hd w = CHR ''-'' then False
      else if last w = CHR ''/'' then False
      else all_plain w)"

text \<open>
  \<open>resolve_leaf t name\<close>: the directory a name lies in and its last component, the
  links above it followed, the entry itself not.
\<close>

definition resolve_leaf :: "node \<Rightarrow> string \<Rightarrow> (path \<times> string) option" where
  "resolve_leaf t name =
     (case comps name of
        [] \<Rightarrow> None
      | c # cs \<Rightarrow>
          (if last (c # cs) = ''.'' \<or> last (c # cs) = ''..'' then None
           else
             (case walk 40 t [] (butlast (c # cs)) of
                Inl e \<Rightarrow> None
              | Inr p \<Rightarrow>
                  (case lookup t p of
                     Some (Dir es) \<Rightarrow> Some (p, last (c # cs))
                   | _ \<Rightarrow> None))))"

text \<open>
  \<^verbatim>\<open>git clone --single-branch --branch B U D\<close>: \<open>remote U B\<close> is the tree of branch \<open>B\<close> at
  \<open>U\<close>. The directory \<open>D\<close> is made if it is missing and must be empty if it is there.
\<close>

definition git_clone :: "(string \<Rightarrow> string \<Rightarrow> node option) \<Rightarrow> node \<Rightarrow> string \<Rightarrow> string \<Rightarrow> string
    \<Rightarrow> (int \<times> node) option" where
  "git_clone remote t branch url dir =
     (case remote url branch of
        None \<Rightarrow> Some (128, t)
      | Some repo \<Rightarrow>
          (case posix_stat t dir of
             Some (Dir es) \<Rightarrow>
               (if es = [] then
                  (case walk 40 t [] (comps dir) of
                     Inr p \<Rightarrow> Some (0, put_p p repo t)
                   | Inl e \<Rightarrow> Some (128, t))
                else Some (128, t))
           | Some n \<Rightarrow> Some (128, t)
           | None \<Rightarrow>
               (case posix_makedirs t dir of
                  (None, t1) \<Rightarrow>
                    (case walk 40 t1 [] (comps dir) of
                       Inr p \<Rightarrow> Some (0, put_p p repo t1)
                     | Inl e \<Rightarrow> Some (128, t1))
                | (Some e, t1) \<Rightarrow> Some (128, t1))))"

text \<open>
  \<^verbatim>\<open>cp -R SRC DST\<close>: the entry \<open>SRC\<close> (a link is copied as a link) goes to \<open>DST\<close>, or into
  \<open>DST\<close> when that is a directory. A file replaces a file; nothing is copied onto or into
  itself. Merging two directories and replacing an entry by one of another kind are not
  modelled.
\<close>

definition cp_place :: "node \<Rightarrow> path \<Rightarrow> node \<Rightarrow> path \<Rightarrow> (int \<times> node) option" where
  "cp_place t sp n dp =
     (if prefix sp dp then Some (1, t)
      else
        (case lookup t dp of
           None \<Rightarrow> Some (0, put_p dp n t)
         | Some (File old) \<Rightarrow>
             (case n of File text \<Rightarrow> Some (0, put_p dp n t) | _ \<Rightarrow> None)
         | Some m \<Rightarrow> None))"

definition cp_R :: "node \<Rightarrow> string \<Rightarrow> string \<Rightarrow> (int \<times> node) option" where
  "cp_R t src dst =
     (case resolve_leaf t src of
        None \<Rightarrow> (if posix_stat t src = None then Some (1, t) else None)
      | Some (sd, sl) \<Rightarrow>
          (case lookup t (sd @ [sl]) of
             None \<Rightarrow> Some (1, t)
           | Some n \<Rightarrow>
               (case walk 40 t [] (comps dst) of
                  Inr dp \<Rightarrow>
                    (case lookup t dp of
                       Some (Dir es) \<Rightarrow> cp_place t (sd @ [sl]) n (dp @ [sl])
                     | _ \<Rightarrow> cp_place t (sd @ [sl]) n dp)
                | Inl e \<Rightarrow>
                    (case resolve_leaf t dst of
                       None \<Rightarrow> None
                     | Some (dd, dl) \<Rightarrow>
                         (if lookup t (dd @ [dl]) = None
                          then cp_place t (sd @ [sl]) n (dd @ [dl])
                          else Some (1, t))))))"

text \<open>
  \<^verbatim>\<open>erb -T - -r VARS IN > OUT\<close>: the shell empties or creates \<open>OUT\<close> first; then
  \<open>erb_run\<close>, given the text of \<open>VARS\<close> and of \<open>IN\<close>, gives the exit status and the output.
  \<open>VARS\<close> is required by its absolute name.
\<close>

definition erb :: "(string \<Rightarrow> string \<Rightarrow> int \<times> string) \<Rightarrow> node \<Rightarrow> string \<Rightarrow> string \<Rightarrow> string
    \<Rightarrow> (int \<times> node) option" where
  "erb erb_run t vars inp out =
     (if \<not> absolute vars then None
      else
        (case posix_write t out [] of
           (Some e, t1) \<Rightarrow> Some (2, t1)
         | (None, t1) \<Rightarrow>
             (case read_file t1 vars of
                None \<Rightarrow> Some (1, t1)
              | Some vars_text \<Rightarrow>
                  (case read_file t1 inp of
                     None \<Rightarrow> Some (1, t1)
                   | Some inp_text \<Rightarrow>
                       (case erb_run vars_text inp_text of
                          (status, output) \<Rightarrow>
                            Some (status, snd (posix_write t1 out output)))))))"

text \<open>\<^verbatim>\<open>rm F\<close> removes a file or a link and refuses a directory.\<close>

definition rm :: "node \<Rightarrow> string \<Rightarrow> (int \<times> node) option" where
  "rm t name =
     (case resolve_leaf t name of
        None \<Rightarrow> Some (1, t)
      | Some (d, l) \<Rightarrow>
          (case lookup t (d @ [l]) of
             None \<Rightarrow> Some (1, t)
           | Some (Dir es) \<Rightarrow> Some (1, t)
           | Some n \<Rightarrow> Some (0, del (d @ [l]) t)))"

definition run_words :: "(string \<Rightarrow> string \<Rightarrow> node option) \<Rightarrow> (string \<Rightarrow> string \<Rightarrow> int \<times> string)
    \<Rightarrow> node \<Rightarrow> string list \<Rightarrow> (int \<times> node) option" where
  "run_words remote erb_run t ws =
     (if length ws = 7 \<and> take 4 ws = [''git'', ''clone'', ''--single-branch'', ''--branch'']
      then (if plain_word (ws ! 4) \<and> plain_word (ws ! 5) \<and> plain_word (ws ! 6)
            then git_clone remote t (ws ! 4) (ws ! 5) (ws ! 6) else None)
      else if length ws = 4 \<and> take 2 ws = [''cp'', ''-R'']
      then (if plain_word (ws ! 2) \<and> plain_word (ws ! 3)
            then cp_R t (ws ! 2) (ws ! 3) else None)
      else if length ws = 8 \<and> take 4 ws = [''erb'', ''-T'', ''-'', ''-r''] \<and> ws ! 6 = ''>''
      then (if plain_word (ws ! 4) \<and> plain_word (ws ! 5) \<and> plain_word (ws ! 7)
            then erb erb_run t (ws ! 4) (ws ! 5) (ws ! 7) else None)
      else if length ws = 2 \<and> take 1 ws = [''rm'']
      then (if plain_word (ws ! 1) then rm t (ws ! 1) else None)
      else None)"

definition posix_shell :: "(string \<Rightarrow> string \<Rightarrow> node option) \<Rightarrow> (string \<Rightarrow> string \<Rightarrow> int \<times> string)
    \<Rightarrow> (node \<Rightarrow> string \<Rightarrow> int \<times> node) \<Rightarrow> node \<Rightarrow> string \<Rightarrow> int \<times> node" where
  "posix_shell remote erb_run other t cmd =
     (case run_words remote erb_run t (sh_words cmd) of
        Some r \<Rightarrow> r
      | None \<Rightarrow> other t cmd)"

text \<open>
  The environment: the program installed in \<open>root\<close>, the remote repositories, the template
  processor, and the shell's answer to every other command line.
\<close>

definition posix :: "string \<Rightarrow> (string \<Rightarrow> string \<Rightarrow> node option) \<Rightarrow> (string \<Rightarrow> string \<Rightarrow> int \<times> string)
    \<Rightarrow> (node \<Rightarrow> string \<Rightarrow> int \<times> node) \<Rightarrow> env" where
  "posix root remote erb_run other =
     \<lparr> root_dir = root,
       sys_exists = posix_exists,
       sys_makedirs = posix_makedirs,
       sys_write = posix_write,
       sys_shell = posix_shell remote erb_run other \<rparr>"

section \<open>Vocabulary of the properties\<close>

text \<open>A key of a dictionary of the document, when the value is a dictionary and has it.\<close>

definition field :: "json \<Rightarrow> string \<Rightarrow> json option" where
  "field obj k = (case obj of JObj kvs \<Rightarrow> map_of kvs k | _ \<Rightarrow> None)"

text \<open>
  The \<^verbatim>\<open>select\<close> field of a resource dimension or of a VM image is present and
  true. The source tests it with \<^verbatim>\<open>if select:\<close>, so true is Python's truth value,
  which for a JSON boolean is the boolean itself.
\<close>

definition select_on :: "json option \<Rightarrow> bool" where
  "select_on d =
     (case d of
        Some m \<Rightarrow> (case field m ''select'' of Some s \<Rightarrow> py_truthy s | None \<Rightarrow> False)
      | None \<Rightarrow> False)"

text \<open>The list of assignments has one for the variable \<open>name\<close>: a line \<^verbatim>\<open>@name = ...\<close>.\<close>

definition has_var :: "string \<Rightarrow> string list \<Rightarrow> bool" where
  "has_var name vars = list_ex (prefix (''@'' @ name @ '' = '')) vars"


section \<open>Example configuration\<close>

definition ex_base :: json where
  "ex_base = JObj
     [(''app_type'', JStr ''vm''),
      (''git_url'', JStr ''https://example/repo.git''),
      (''git_dir'', JStr ''base1''),
      (''git_branch'', JStr ''main''),
      (''vm_image'', JObj [(''select'', JBool False), (''base_image'', JStr ''centos7'')]),
      (''use_custom_image_file'', JBool False)]"

definition ex_app :: json where
  "ex_app = JObj
     [(''app_name'', JStr ''myapp''),
      (''title'', JStr ''My App''),
      (''name'', JStr ''myapp''),
      (''cpu'', JObj [(''value'', JInt 2)]),
      (''memory'', JObj [(''value'', JInt 4096), (''select'', JBool True), (''min'', JInt 1024), (''max'', JInt 8192)])]"

definition ex_vars :: "string list" where
  "ex_vars =
     [''@title = '' @ squote @ ''My App'' @ squote,
      ''@name = '' @ squote @ ''myapp'' @ squote,
      ''@custom_memory_per_node_select = true'',
      ''@custom_memory_per_node_min = 1024'',
      ''@custom_memory_per_node_max = 8192'',
      ''@custom_memory_per_node = 4096'',
      ''@custom_num_cores = 2'',
      ''@base_image_select = false'',
      ''@base_image = centos7'',
      ''@use_custom_image_file = false'']"

definition effective_vm_image :: "json \<Rightarrow> json \<Rightarrow> json option" where
  "effective_vm_image base app =
     (case field app ''vm_image'' of Some v \<Rightarrow> Some v | None \<Rightarrow> field base ''vm_image'')"

definition ex_app_plain :: json where
  "ex_app_plain = JObj
     [(''app_name'', JStr ''myapp''),
      (''title'', JStr ''My App''),
      (''name'', JStr ''myapp''),
      (''cpu'', JObj [(''value'', JInt 2)]),
      (''memory'', JObj [(''value'', JInt 4096)])]"

definition ex_vars_plain :: "string list" where
  "ex_vars_plain =
     [''@title = '' @ squote @ ''My App'' @ squote,
      ''@name = '' @ squote @ ''myapp'' @ squote,
      ''@custom_memory_per_node = 4096'',
      ''@custom_num_cores = 2'',
      ''@base_image_select = false'',
      ''@base_image = centos7'',
      ''@use_custom_image_file = false'']"

definition is_obj :: "json \<Rightarrow> bool" where
  "is_obj v = (case v of JObj kvs \<Rightarrow> True | _ \<Rightarrow> False)"

definition ex_bad_doc :: json where
  "ex_bad_doc = JObj [(''base'', ex_base), (''apps'', JArr [JObj [(''app_name'', JStr ''x'')]])]"

definition ex_repo :: "(string \<times> node) list" where
  "ex_repo = [(''form.yml.erb'', File ''title: <%= @title %>''),
              (''manifest.yml.erb'', File ''name: <%= @name %>''),
              (''submit.yml.erb'', File ''script''),
              (''template'', Dir [(''script.sh'', File ''run'')])]"

text \<open>
  The program installed in \<^verbatim>\<open>/srv\<close>, one remote repository, a template processor that
  copies its input, and a shell that knows no other command.
\<close>

definition ex_env :: env where
  "ex_env = posix ''/srv''
     (\<lambda>url branch. if url = ''https://example/repo.git'' \<and> branch = ''main''
                    then Some (Dir ex_repo) else None)
     (\<lambda>vars tmpl. (0, tmpl))
     (\<lambda>t cmd. (127, t))"

definition ex_world :: world where
  "ex_world = \<lparr> fs = Dir [(''srv'', Dir [])], trace = [] \<rparr>"

definition dest_of :: "env \<Rightarrow> string \<Rightarrow> string" where
  "dest_of E n = path_join (APPS_DIR E) n"

definition emits :: "(event \<Rightarrow> bool) \<Rightarrow> 'a prog \<Rightarrow> bool" where
  "emits P m = (\<forall>w. \<exists>evs. trace (snd (m w)) = trace w @ evs \<and> list_all P evs)"

definition cx_world :: world where
  "cx_world = \<lparr> fs = Dir [(''srv'', Dir [(''apps'', Dir [(''myapp'', Symlink ''/srv/gone'')])])],
                trace = [] \<rparr>"

text \<open>The lines a run has printed, in order.\<close>

definition printed :: "world \<Rightarrow> string list" where
  "printed w = concat (map (\<lambda>e. case e of Print line \<Rightarrow> [line] | _ \<Rightarrow> []) (trace w))"

definition name_of :: "json \<Rightarrow> string" where
  "name_of app = (case field app ''app_name'' of Some (JStr n) \<Rightarrow> n | _ \<Rightarrow> [])"

definition apps_of :: "json \<Rightarrow> json list" where
  "apps_of doc =
     (case field doc ''apps'' of
        Some apps \<Rightarrow> (case py_iter apps of Inr xs \<Rightarrow> xs | Inl e \<Rightarrow> [])
      | None \<Rightarrow> [])"

text \<open>
  The report the specification describes, for the apps that are reached: in order, one
  line for each app whose processing returns, \<^verbatim>\<open>Skipped\<close> when its destination exists at
  the moment the app is reached and \<^verbatim>\<open>Created\<close> when it does not. The report ends at the
  first app whose processing raises.
\<close>

fun report :: "env \<Rightarrow> json \<Rightarrow> json list \<Rightarrow> world \<Rightarrow> string list" where
  "report E data [] w = []"
| "report E data (app # rest) w =
     (case main_loop E data [app] w of
        (Inl e, w1) \<Rightarrow> []
      | (Inr u, w1) \<Rightarrow>
          (if sys_exists E (fs w) (dest_of E (name_of app))
           then ''Skipped '' @ name_of app @ '' -- already created''
           else ''Created '' @ name_of app)
          # report E data rest w1)"

definition ex_doc :: json where
  "ex_doc = JObj [(''base'', ex_base), (''apps'', JArr [ex_app_plain])]"

definition ex_after :: world where
  "ex_after =
     \<lparr> fs = Dir [(''srv'', Dir
              [(''apps'', Dir [(''myapp'', Dir
                  [(''submit.yml.erb'', File ''script''),
                   (''template'', Dir [(''script.sh'', File ''run'')]),
                   (''form.yml'', File ''title: <%= @title %>''),
                   (''manifest.yml'', File ''name: <%= @name %>'')])]),
               (''base1'', Dir ex_repo)])],
       trace =
         [Exists ''/srv/apps/myapp'',
          Makedirs ''/srv/apps/myapp'',
          Exists ''/srv/base1'',
          Shell ''git clone --single-branch --branch main https://example/repo.git /srv/base1'',
          Shell ''cp -R /srv/base1/form.yml.erb /srv/apps/myapp/form.yml.erb'',
          Shell ''cp -R /srv/base1/manifest.yml.erb /srv/apps/myapp/manifest.yml.erb'',
          Shell ''cp -R /srv/base1/submit.yml.erb /srv/apps/myapp/submit.yml.erb'',
          Shell ''cp -R /srv/base1/template /srv/apps/myapp/template'',
          Write ''/srv/apps/myapp/vars.rb'' (join_str newline ex_vars_plain @ newline),
          Shell ''erb -T - -r /srv/apps/myapp/vars.rb /srv/apps/myapp/form.yml.erb > /srv/apps/myapp/form.yml'',
          Shell ''erb -T - -r /srv/apps/myapp/vars.rb /srv/apps/myapp/manifest.yml.erb > /srv/apps/myapp/manifest.yml'',
          Shell ''rm /srv/apps/myapp/form.yml.erb'',
          Shell ''rm /srv/apps/myapp/manifest.yml.erb'',
          Shell ''rm /srv/apps/myapp/vars.rb''] \<rparr>"

text \<open>
  The configurations from which the variables of an app can be derived: the app has a
  \<^verbatim>\<open>title\<close> and a \<^verbatim>\<open>name\<close>, its \<^verbatim>\<open>memory\<close> and \<^verbatim>\<open>cpu\<close> are dictionaries with a
  \<^verbatim>\<open>value\<close>, the base has \<^verbatim>\<open>use_custom_image_file\<close> and \<^verbatim>\<open>vm_image\<close>, and the effective
  VM image is a dictionary.
\<close>

definition derivable :: "json \<Rightarrow> json \<Rightarrow> bool" where
  "derivable base app =
     (field app ''title'' \<noteq> None \<and> field app ''name'' \<noteq> None \<and>
      field base ''use_custom_image_file'' \<noteq> None \<and> field base ''vm_image'' \<noteq> None \<and>
      (case effective_vm_image base app of Some vm \<Rightarrow> is_obj vm | None \<Rightarrow> False) \<and>
      (case field app ''memory'' of Some m \<Rightarrow> field m ''value'' \<noteq> None | None \<Rightarrow> False) \<and>
      (case field app ''cpu'' of Some c \<Rightarrow> field c ''value'' \<noteq> None | None \<Rightarrow> False))"

definition ex_app_img :: json where
  "ex_app_img = JObj
     [(''app_name'', JStr ''imgapp''),
      (''title'', JStr ''Image App''),
      (''name'', JStr ''imgapp''),
      (''cpu'', JObj [(''value'', JInt 4)]),
      (''memory'', JObj [(''value'', JInt 2048)]),
      (''vm_image'', JObj [(''select'', JBool True), (''base_image'', JStr ''rocky8'')])]"

definition ex_vars_img :: "string list" where
  "ex_vars_img =
     [''@title = '' @ squote @ ''Image App'' @ squote,
      ''@name = '' @ squote @ ''imgapp'' @ squote,
      ''@custom_memory_per_node = 2048'',
      ''@custom_num_cores = 4'',
      ''@base_image_select = true'',
      ''@use_custom_image_file = false'']"

text \<open>A regular file where the directory of the app would be.\<close>

definition file_world :: world where
  "file_world = \<lparr> fs = Dir [(''srv'', Dir [(''apps'', Dir [(''myapp'', File ''notes'')])])],
                  trace = [] \<rparr>"

text \<open>An app whose \<^verbatim>\<open>app_name\<close> is a number, and a document with it in second place.\<close>

definition ex_app_number :: json where
  "ex_app_number = JObj
     [(''app_name'', JInt 5),
      (''title'', JStr ''Five''),
      (''name'', JStr ''five''),
      (''cpu'', JObj [(''value'', JInt 1)]),
      (''memory'', JObj [(''value'', JInt 512)])]"

definition ex_doc_abort :: json where
  "ex_doc_abort = JObj [(''base'', ex_base), (''apps'', JArr [ex_app_plain, ex_app_number])]"

text \<open>The lines a run of \<^verbatim>\<open>main\<close> is to print: none when the sanity check fails.\<close>

definition run_report :: "env \<Rightarrow> json \<Rightarrow> world \<Rightarrow> string list" where
  "run_report E doc w =
     (if load_apps doc = Inr doc then report E doc (apps_of doc) w else [])"

section \<open>Properties of the substitution variables\<close>

lemma ebind_Inr: "ebind m f = Inr y \<longleftrightarrow> (\<exists>x. m = Inr x \<and> f x = Inr y)"
  by (cases m) (auto simp: ebind_def)

lemma ebind_Inl: "ebind m f = Inl e \<longleftrightarrow> m = Inl e \<or> (\<exists>x. m = Inr x \<and> f x = Inl e)"
  by (cases m) (auto simp: ebind_def)

lemma py_getitem_Inr: "py_getitem obj k = Inr v \<longleftrightarrow> field obj k = Some v"
  by (auto simp: py_getitem_def field_def split: json.splits option.splits)

lemma erb_vars_InrD:
  assumes "erb_vars base app = Inr vars"
  shows "\<exists>title name ucif vm bis bi mem mv ms mmin mmax cpu cv cs cmin cmax.
     py_getitem app ''title'' = Inr title \<and>
     py_getitem app ''name'' = Inr name \<and>
     py_get app ''use_custom_image_file'' (py_getitem base ''use_custom_image_file'') = Inr ucif \<and>
     py_get app ''vm_image'' (py_getitem base ''vm_image'') = Inr vm \<and>
     py_get vm ''select'' (Inr (JBool False)) = Inr bis \<and>
     py_get vm ''base_image'' (Inr JNull) = Inr bi \<and>
     py_get app ''memory'' (Inr (JObj [])) = Inr mem \<and>
     py_getitem mem ''value'' = Inr mv \<and>
     py_get mem ''select'' (Inr (JBool False)) = Inr ms \<and>
     py_get mem ''min'' (Inr JNull) = Inr mmin \<and>
     py_get mem ''max'' (Inr JNull) = Inr mmax \<and>
     py_get app ''cpu'' (Inr (JObj [])) = Inr cpu \<and>
     py_getitem cpu ''value'' = Inr cv \<and>
     py_get cpu ''select'' (Inr (JBool False)) = Inr cs \<and>
     py_get cpu ''min'' (Inr JNull) = Inr cmin \<and>
     py_get cpu ''max'' (Inr JNull) = Inr cmax \<and>
     vars =
       [''@title = '' @ squote @ py_str title @ squote,
        ''@name = '' @ squote @ py_str name @ squote]
       @ (if py_truthy ms then
            [''@custom_memory_per_node_select = true'',
             ''@custom_memory_per_node_min = '' @ py_str mmin,
             ''@custom_memory_per_node_max = '' @ py_str mmax]
          else [])
       @ [''@custom_memory_per_node = '' @ py_str mv]
       @ (if py_truthy cs then
            [''@custom_num_cores_select = true'',
             ''@custom_num_cores_min = '' @ py_str cmin,
             ''@custom_num_cores_max = '' @ py_str cmax]
          else [])
       @ [''@custom_num_cores = '' @ py_str cv]
       @ (if \<not> py_truthy bis then
            [''@base_image_select = false'',
             ''@base_image = '' @ py_str bi]
          else [''@base_image_select = true''])
       @ [''@use_custom_image_file = '' @ py_lower (py_str ucif)]"
  using assms unfolding erb_vars_def ebind_Inr
  by (elim exE conjE) (simp only: sum.inject simp_thms, blast)

lemma dim_present:
  assumes "py_get app d (Inr (JObj [])) = Inr m" and "py_getitem m ''value'' = Inr v"
  shows "field app d = Some m \<and> field m ''value'' = Some v"
  using assms
  by (cases app)
     (auto simp: py_get_def py_getitem_def ebind_def field_def split: option.splits json.splits)

lemma sel_truthy:
  assumes "py_get m ''select'' (Inr (JBool False)) = Inr s"
  shows "py_truthy s = select_on (Some m)"
  using assms
  by (cases m) (auto simp: py_get_def ebind_def field_def select_on_def split: option.splits)

lemma ex_erb_vars: "erb_vars ex_base ex_app = Inr ex_vars"
  by (simp add: erb_vars_def ex_base_def ex_app_def ex_vars_def ebind_def py_get_def
      py_getitem_def py_str_def show_int_def show_nat.simps digit_char_def py_lower_def
      lower_char_def)


lemma field_SomeD: "field obj k = Some v \<Longrightarrow> \<exists>kvs. obj = JObj kvs \<and> map_of kvs k = Some v"
  by (cases obj) (auto simp: field_def)

lemma py_get_obj:
  "py_get (JObj kvs) k (Inr d) = Inr (case map_of kvs k of None \<Rightarrow> d | Some v \<Rightarrow> v)"
  by (simp add: py_get_def ebind_def)

lemma erb_vars_succeeds:
  assumes "derivable base app"
  shows "\<exists>vars. erb_vars base app = Inr vars"
proof -
  from assms obtain t n u bv vm m mv c cv where
    t: "field app ''title'' = Some t" and n: "field app ''name'' = Some n"
    and u: "field base ''use_custom_image_file'' = Some u" and bv: "field base ''vm_image'' = Some bv"
    and vm: "effective_vm_image base app = Some vm" "is_obj vm"
    and m: "field app ''memory'' = Some m" "field m ''value'' = Some mv"
    and c: "field app ''cpu'' = Some c" "field c ''value'' = Some cv"
    by (auto simp: derivable_def split: option.splits)
  from t obtain akvs where app: "app = JObj akvs" by (auto dest: field_SomeD)
  from vm(2) obtain vkvs where vmo: "vm = JObj vkvs" by (cases vm) (auto simp: is_obj_def)
  from m(2) obtain mkvs where mo: "m = JObj mkvs" by (auto dest: field_SomeD)
  from c(2) obtain ckvs where co: "c = JObj ckvs" by (auto dest: field_SomeD)
  have g1: "py_getitem app ''title'' = Inr t" "py_getitem app ''name'' = Inr n"
    "py_getitem base ''use_custom_image_file'' = Inr u" "py_getitem base ''vm_image'' = Inr bv"
    "py_getitem m ''value'' = Inr mv" "py_getitem c ''value'' = Inr cv"
    using t n u bv m c by (simp_all add: py_getitem_Inr)
  have g2: "py_get app ''vm_image'' (Inr bv) = Inr vm"
    using vm(1) bv by (simp add: app py_get_obj effective_vm_image_def field_def split: option.splits)
  have g3: "py_get app ''memory'' (Inr (JObj [])) = Inr m" "py_get app ''cpu'' (Inr (JObj [])) = Inr c"
    using m(1) c(1) by (simp_all add: app py_get_obj field_def)
  show ?thesis
    unfolding erb_vars_def g1 g2 g3
    by (simp add: ebind_def app vmo mo co py_get_obj g1 [unfolded mo co])
qed

lemma ex_derivable: "derivable ex_base ex_app"
  by (simp add: derivable_def field_def effective_vm_image_def is_obj_def ex_base_def ex_app_def)



lemma ex_erb_vars_plain: "erb_vars ex_base ex_app_plain = Inr ex_vars_plain"
  by (simp add: erb_vars_def ex_base_def ex_app_plain_def ex_vars_plain_def ebind_def py_get_def
      py_getitem_def py_str_def show_int_def show_nat.simps digit_char_def py_lower_def
      lower_char_def)

lemma effective_vm_imageI:
  assumes "py_get app ''vm_image'' (py_getitem base ''vm_image'') = Inr vm"
  shows "effective_vm_image base app = Some vm"
  using assms
  by (cases app)
     (auto simp: py_get_def ebind_Inr py_getitem_Inr effective_vm_image_def field_def
           split: option.splits)

lemma py_get_value:
  assumes "py_get m k (Inr d) = Inr v"
  shows "v = (case field m k of Some x \<Rightarrow> x | None \<Rightarrow> d)"
  using assms by (cases m) (auto simp: py_get_def ebind_def field_def split: option.splits)

lemma image_lines:
  assumes "erb_vars base app = Inr vars"
  shows "\<exists>vm. effective_vm_image base app = Some vm \<and>
     (if select_on (Some vm)
      then ''@base_image_select = true'' \<in> set vars \<and>
           \<not> has_var ''base_image'' vars \<and>
           ''@base_image_select = false'' \<notin> set vars
      else ''@base_image_select = false'' \<in> set vars \<and>
           ''@base_image = '' @ py_str (case field vm ''base_image'' of Some b \<Rightarrow> b | None \<Rightarrow> JNull)
             \<in> set vars \<and>
           ''@base_image_select = true'' \<notin> set vars)"
proof -
  from erb_vars_InrD [OF assms]
  obtain title name ucif vm bis bi mv ms mmin mmax cv cs cmin cmax
    where vm: "py_get app ''vm_image'' (py_getitem base ''vm_image'') = Inr vm"
      and bis: "py_get vm ''select'' (Inr (JBool False)) = Inr bis"
      and bi: "py_get vm ''base_image'' (Inr JNull) = Inr bi"
      and vars: "vars =
       [''@title = '' @ squote @ py_str title @ squote,
        ''@name = '' @ squote @ py_str name @ squote]
       @ (if py_truthy ms then
            [''@custom_memory_per_node_select = true'',
             ''@custom_memory_per_node_min = '' @ py_str mmin,
             ''@custom_memory_per_node_max = '' @ py_str mmax]
          else [])
       @ [''@custom_memory_per_node = '' @ py_str mv]
       @ (if py_truthy cs then
            [''@custom_num_cores_select = true'',
             ''@custom_num_cores_min = '' @ py_str cmin,
             ''@custom_num_cores_max = '' @ py_str cmax]
          else [])
       @ [''@custom_num_cores = '' @ py_str cv]
       @ (if \<not> py_truthy bis then
            [''@base_image_select = false'',
             ''@base_image = '' @ py_str bi]
          else [''@base_image_select = true''])
       @ [''@use_custom_image_file = '' @ py_lower (py_str ucif)]"
    by blast
  note sb = sel_truthy [OF bis] and bv = py_get_value [OF bi]
  have eff: "effective_vm_image base app = Some vm"
    by (rule effective_vm_imageI [OF vm])
  show ?thesis
  proof (cases "select_on (Some vm)")
    case True
    have "''@base_image_select = true'' \<in> set vars"
      unfolding vars sb using True by simp
    moreover have "\<not> has_var ''base_image'' vars"
      unfolding vars sb using True by (simp add: has_var_def)
    moreover have "''@base_image_select = false'' \<notin> set vars"
      unfolding vars sb using True by (simp add: squote_def)
    ultimately show ?thesis using eff True by simp
  next
    case False
    have "''@base_image_select = false'' \<in> set vars"
      unfolding vars sb using False by simp
    moreover have "''@base_image = '' @ py_str (case field vm ''base_image'' of Some b \<Rightarrow> b | None \<Rightarrow> JNull) \<in> set vars"
      unfolding vars sb bv using False by simp
    moreover have "''@base_image_select = true'' \<notin> set vars"
      unfolding vars sb using False by (simp add: squote_def)
    ultimately show ?thesis using eff False by simp
  qed
qed

lemma ex_erb_vars_img: "erb_vars ex_base ex_app_img = Inr ex_vars_img"
  by (simp add: erb_vars_def ex_base_def ex_app_img_def ex_vars_img_def ebind_def py_get_def
      py_getitem_def py_str_def show_int_def show_nat.simps digit_char_def py_lower_def
      lower_char_def)

lemma ex_derivable_img: "derivable ex_base ex_app_img"
  by (simp add: derivable_def field_def effective_vm_image_def is_obj_def ex_base_def
      ex_app_img_def)

text \<open>
  C2. For every app whose configuration is of the shape the variables are derived from,
  \<^verbatim>\<open>erb_vars\<close> returns a list. The effective VM image of an app is its own \<^verbatim>\<open>vm_image\<close> if it has one, else the
  base's. When its \<^verbatim>\<open>select\<close> is true the list contains \<^verbatim>\<open>@base_image_select = true\<close>
  and no assignment of \<^verbatim>\<open>@base_image\<close>; when it is false or absent the list contains
  \<^verbatim>\<open>@base_image_select = false\<close> and \<^verbatim>\<open>@base_image = \<close> followed by the image's
  \<^verbatim>\<open>base_image\<close> (\<^verbatim>\<open>None\<close> when the image has none).
\<close>

theorem image_variables:
  assumes "derivable base app"
  shows "\<exists>vars vm. erb_vars base app = Inr vars \<and> effective_vm_image base app = Some vm \<and>
     (if select_on (Some vm)
      then ''@base_image_select = true'' \<in> set vars \<and>
           \<not> has_var ''base_image'' vars \<and>
           ''@base_image_select = false'' \<notin> set vars
      else ''@base_image_select = false'' \<in> set vars \<and>
           ''@base_image = '' @ py_str (case field vm ''base_image'' of Some b \<Rightarrow> b | None \<Rightarrow> JNull)
             \<in> set vars \<and>
           ''@base_image_select = true'' \<notin> set vars)"
proof -
  from erb_vars_succeeds [OF assms] obtain vars where v: "erb_vars base app = Inr vars" ..
  from image_lines [OF v] v show ?thesis by blast
qed

theorem image_variables_witness:
  "derivable ex_base ex_app \<and>
   erb_vars ex_base ex_app = Inr ex_vars \<and>
   effective_vm_image ex_base ex_app =
     Some (JObj [(''select'', JBool False), (''base_image'', JStr ''centos7'')]) \<and>
   ''@base_image_select = false'' \<in> set ex_vars \<and>
   ''@base_image = centos7'' \<in> set ex_vars \<and>
   ''@base_image_select = true'' \<notin> set ex_vars \<and>
   derivable ex_base ex_app_img \<and>
   erb_vars ex_base ex_app_img = Inr ex_vars_img \<and>
   effective_vm_image ex_base ex_app_img =
     Some (JObj [(''select'', JBool True), (''base_image'', JStr ''rocky8'')]) \<and>
   ''@base_image_select = true'' \<in> set ex_vars_img \<and>
   \<not> has_var ''base_image'' ex_vars_img \<and>
   ''@base_image_select = false'' \<notin> set ex_vars_img"
proof -
  have e1: "effective_vm_image ex_base ex_app =
      Some (JObj [(''select'', JBool False), (''base_image'', JStr ''centos7'')])"
    by (simp add: effective_vm_image_def field_def ex_base_def ex_app_def)
  have e2: "effective_vm_image ex_base ex_app_img =
      Some (JObj [(''select'', JBool True), (''base_image'', JStr ''rocky8'')])"
    by (simp add: effective_vm_image_def field_def ex_app_img_def)
  from image_variables [OF ex_derivable] image_variables [OF ex_derivable_img]
  show ?thesis
    using ex_derivable ex_derivable_img ex_erb_vars ex_erb_vars_img e1 e2
    by (simp add: select_on_def field_def py_str_def)
qed

text \<open>
  C10. When the \<^verbatim>\<open>select\<close> of a resource dimension is false or absent, no line of the
  list starts with that dimension's select variable (it is absent, not set to false),
  while \<^verbatim>\<open>@base_image_select\<close> and \<^verbatim>\<open>@use_custom_image_file\<close> are assigned in every
  list.
\<close>

theorem select_variables:
  assumes "erb_vars base app = Inr vars"
  shows "(\<not> select_on (field app ''memory'') \<longrightarrow>
            \<not> list_ex (prefix ''@custom_memory_per_node_select'') vars) \<and>
         (\<not> select_on (field app ''cpu'') \<longrightarrow>
            \<not> list_ex (prefix ''@custom_num_cores_select'') vars) \<and>
         has_var ''base_image_select'' vars \<and>
         has_var ''use_custom_image_file'' vars"
proof -
  from erb_vars_InrD [OF assms]
  obtain title name ucif bis bi mem mv ms mmin mmax cpu cv cs cmin cmax
    where mem: "py_get app ''memory'' (Inr (JObj [])) = Inr mem" "py_getitem mem ''value'' = Inr mv"
      and ms: "py_get mem ''select'' (Inr (JBool False)) = Inr ms"
      and cpu: "py_get app ''cpu'' (Inr (JObj [])) = Inr cpu" "py_getitem cpu ''value'' = Inr cv"
      and cs: "py_get cpu ''select'' (Inr (JBool False)) = Inr cs"
      and vars: "vars =
       [''@title = '' @ squote @ py_str title @ squote,
        ''@name = '' @ squote @ py_str name @ squote]
       @ (if py_truthy ms then
            [''@custom_memory_per_node_select = true'',
             ''@custom_memory_per_node_min = '' @ py_str mmin,
             ''@custom_memory_per_node_max = '' @ py_str mmax]
          else [])
       @ [''@custom_memory_per_node = '' @ py_str mv]
       @ (if py_truthy cs then
            [''@custom_num_cores_select = true'',
             ''@custom_num_cores_min = '' @ py_str cmin,
             ''@custom_num_cores_max = '' @ py_str cmax]
          else [])
       @ [''@custom_num_cores = '' @ py_str cv]
       @ (if \<not> py_truthy bis then
            [''@base_image_select = false'',
             ''@base_image = '' @ py_str bi]
          else [''@base_image_select = true''])
       @ [''@use_custom_image_file = '' @ py_lower (py_str ucif)]"
    by blast
  note m = dim_present [OF mem] and c = dim_present [OF cpu]
  note sm = sel_truthy [OF ms] and sc = sel_truthy [OF cs]
  have "\<not> select_on (Some mem) \<longrightarrow> \<not> list_ex (prefix ''@custom_memory_per_node_select'') vars"
    unfolding vars sm sc by simp
  moreover have "\<not> select_on (Some cpu) \<longrightarrow> \<not> list_ex (prefix ''@custom_num_cores_select'') vars"
    unfolding vars sm sc by simp
  moreover have "has_var ''base_image_select'' vars"
    unfolding vars by (simp add: has_var_def)
  moreover have "has_var ''use_custom_image_file'' vars"
    unfolding vars by (simp add: has_var_def)
  ultimately show ?thesis using m c by simp
qed

theorem select_variables_witness:
  "erb_vars ex_base ex_app_plain = Inr ex_vars_plain \<and>
   \<not> select_on (field ex_app_plain ''memory'') \<and>
   \<not> list_ex (prefix ''@custom_memory_per_node_select'') ex_vars_plain \<and>
   \<not> select_on (field ex_app_plain ''cpu'') \<and>
   \<not> list_ex (prefix ''@custom_num_cores_select'') ex_vars_plain \<and>
   has_var ''base_image_select'' ex_vars_plain \<and>
   has_var ''use_custom_image_file'' ex_vars_plain"
proof -
  have "\<not> select_on (field ex_app_plain ''memory'')" "\<not> select_on (field ex_app_plain ''cpu'')"
    by (simp_all add: select_on_def field_def ex_app_plain_def)
  then show ?thesis
    using ex_erb_vars_plain select_variables [OF ex_erb_vars_plain] by simp
qed

section \<open>The sanity check\<close>

lemma check_base_result:
  assumes "py_getitem doc ''base'' = Inr (JObj b)"
  shows "check_base doc ks =
           (case find (\<lambda>k. map_of b k = None) ks of
              None \<Rightarrow> Inr ()
            | Some k \<Rightarrow> Inl (AssertionError (''Base missing required attribute: '' @ k)))"
  using assms by (induction ks) (auto simp: ebind_def py_in_def)

lemma check_app_result:
  "check_app i (JObj kvs) ks =
     (case find (\<lambda>k. map_of kvs k = None) ks of
        None \<Rightarrow> Inr ()
      | Some k \<Rightarrow> Inl (AssertionError
          (''App '' @ show_nat i @ '' is missing required attribute: '' @ k @ '' '' @ py_str (JObj kvs))))"
  by (induction ks) (auto simp: ebind_def py_in_def)

lemma check_app_cases:
  assumes "is_obj a"
  shows "(check_app i a ks = Inr () \<and> (\<forall>k\<in>set ks. field a k \<noteq> None)) \<or>
         ((\<exists>msg. check_app i a ks = Inl (AssertionError msg)) \<and> (\<exists>k\<in>set ks. field a k = None))"
proof -
  from assms obtain kvs where a: "a = JObj kvs" by (cases a) (auto simp: is_obj_def)
  show ?thesis
  proof (cases "find (\<lambda>k. map_of kvs k = None) ks")
    case None
    then have "check_app i a ks = Inr ()" by (simp add: a check_app_result)
    moreover from None have "\<forall>k\<in>set ks. field a k \<noteq> None"
      by (simp add: find_None_iff field_def a)
    ultimately show ?thesis by blast
  next
    case (Some k)
    then have "\<exists>msg. check_app i a ks = Inl (AssertionError msg)"
      by (simp add: a check_app_result)
    moreover from Some have "\<exists>k\<in>set ks. field a k = None"
      by (auto simp: find_Some_iff field_def a)
    ultimately show ?thesis by blast
  qed
qed

lemma check_apps_cases:
  assumes "list_all is_obj apps"
  shows "(check_apps i apps = Inr () \<and> (\<forall>a\<in>set apps. \<forall>k\<in>set app_keys. field a k \<noteq> None)) \<or>
         ((\<exists>msg. check_apps i apps = Inl (AssertionError msg)) \<and>
          (\<exists>a\<in>set apps. \<exists>k\<in>set app_keys. field a k = None))"
  using assms
proof (induction apps arbitrary: i)
  case Nil
  then show ?case by simp
next
  case (Cons a apps)
  then have a: "is_obj a" and rest: "list_all is_obj apps" by simp_all
  from check_app_cases [OF a, of i app_keys] Cons.IH [OF rest, of "Suc i"]
  show ?case by (auto simp: ebind_def)
qed

lemma check_base_cases:
  assumes "field doc ''base'' = Some (JObj b)"
  shows "(check_base doc ks = Inr () \<and> (\<forall>k\<in>set ks. map_of b k \<noteq> None)) \<or>
         ((\<exists>msg. check_base doc ks = Inl (AssertionError msg)) \<and> (\<exists>k\<in>set ks. map_of b k = None))"
proof -
  from assms have g: "py_getitem doc ''base'' = Inr (JObj b)" by (simp add: py_getitem_Inr)
  show ?thesis
  proof (cases "find (\<lambda>k. map_of b k = None) ks")
    case None
    then have "check_base doc ks = Inr ()" by (simp add: check_base_result [OF g])
    moreover from None have "\<forall>k\<in>set ks. map_of b k \<noteq> None"
      by (simp add: find_None_iff)
    ultimately show ?thesis by blast
  next
    case (Some k)
    then have "\<exists>msg. check_base doc ks = Inl (AssertionError msg)"
      by (simp add: check_base_result [OF g])
    moreover from Some have "\<exists>k\<in>set ks. map_of b k = None"
      by (auto simp: find_Some_iff)
    ultimately show ?thesis by blast
  qed
qed

lemma load_apps_unchanged: "load_apps doc = Inr d \<Longrightarrow> d = doc"
  by (auto simp: load_apps_def ebind_Inr)

lemma main_aborts: "load_apps doc = Inl e \<Longrightarrow> main E doc w = (Inl e, w)"
  by (simp add: main_def pbind_def plift_def)

text \<open>
  C7. For a document whose \<^verbatim>\<open>base\<close> is a dictionary and whose \<^verbatim>\<open>apps\<close> is a list of
  dictionaries, \<^verbatim>\<open>load_apps\<close> raises an AssertionError if and only if the base lacks one
  of its six required keys or some app lacks one of its five; otherwise it returns the
  document as it is. Whatever \<^verbatim>\<open>load_apps\<close> raises ends \<^verbatim>\<open>main\<close> with the state of the
  run untouched: no call has been made and the file system is as it was.
\<close>

theorem load_apps_check:
  assumes "field doc ''base'' = Some (JObj b)"
    and "field doc ''apps'' = Some (JArr apps)"
    and "list_all is_obj apps"
  shows "((\<exists>msg. load_apps doc = Inl (AssertionError msg)) \<longleftrightarrow>
            (\<exists>k\<in>set base_keys. map_of b k = None) \<or>
            (\<exists>a\<in>set apps. \<exists>k\<in>set app_keys. field a k = None)) \<and>
         (load_apps doc = Inr doc \<or> (\<exists>msg. load_apps doc = Inl (AssertionError msg))) \<and>
         (\<forall>e. load_apps doc = Inl e \<longrightarrow> main E doc w = (Inl e, w))"
proof -
  from assms(2) have apps: "py_getitem doc ''apps'' = Inr (JArr apps)"
    by (simp add: py_getitem_Inr)
  have it: "py_iter (JArr apps) = Inr apps" by (simp add: py_iter_def)
  from check_base_cases [OF assms(1), of base_keys] check_apps_cases [OF assms(3), of 0]
  have "((\<exists>msg. load_apps doc = Inl (AssertionError msg)) \<longleftrightarrow>
            (\<exists>k\<in>set base_keys. map_of b k = None) \<or>
            (\<exists>a\<in>set apps. \<exists>k\<in>set app_keys. field a k = None)) \<and>
         (load_apps doc = Inr doc \<or> (\<exists>msg. load_apps doc = Inl (AssertionError msg)))"
    by (elim disjE conjE exE; simp add: load_apps_def apps it ebind_def; blast)
  then show ?thesis using main_aborts by blast
qed

lemma ex_bad_load:
  "load_apps ex_bad_doc = Inl (AssertionError
     (''App 0 is missing required attribute: title {'' @ squote @ ''app_name'' @ squote @ '': ''
        @ squote @ ''x'' @ squote @ ''}''))"
  by (simp add: load_apps_def ex_bad_doc_def ex_base_def base_keys_def app_keys_def ebind_def
      py_getitem_def py_in_def py_iter_def py_str_def show_nat.simps digit_char_def squote_def
      repr_str_def escape_char_def Let_def)

theorem load_apps_check_witness:
  "field ex_bad_doc ''base'' = Some ex_base \<and>
   field ex_bad_doc ''apps'' = Some (JArr [JObj [(''app_name'', JStr ''x'')]]) \<and>
   list_all is_obj [JObj [(''app_name'', JStr ''x'')]] \<and>
   (\<exists>msg. load_apps ex_bad_doc = Inl (AssertionError msg)) \<and>
   (\<exists>a\<in>set [JObj [(''app_name'', JStr ''x'')]]. \<exists>k\<in>set app_keys. field a k = None) \<and>
   (\<exists>msg. main ex_env ex_bad_doc ex_world = (Inl (AssertionError msg), ex_world))"
proof -
  have 1: "field ex_bad_doc ''base'' = Some (JObj [(''app_type'', JStr ''vm''),
      (''git_url'', JStr ''https://example/repo.git''),
      (''git_dir'', JStr ''base1''),
      (''git_branch'', JStr ''main''),
      (''vm_image'', JObj [(''select'', JBool False), (''base_image'', JStr ''centos7'')]),
      (''use_custom_image_file'', JBool False)])"
    by (simp add: ex_bad_doc_def field_def ex_base_def)
  have 2: "field ex_bad_doc ''apps'' = Some (JArr [JObj [(''app_name'', JStr ''x'')]])"
    by (simp add: ex_bad_doc_def field_def)
  have 3: "list_all is_obj [JObj [(''app_name'', JStr ''x'')]]"
    by (simp add: is_obj_def)
  have 4: "\<exists>a\<in>set [JObj [(''app_name'', JStr ''x'')]]. \<exists>k\<in>set app_keys. field a k = None"
    by (simp add: app_keys_def field_def)
  from load_apps_check [OF 1 2 3, of ex_env ex_world] 4 1 2 3
  show ?thesis by (auto simp: ex_base_def)
qed

section \<open>Sequencing\<close>

lemma pbind_preturn [simp]: "pbind (preturn x) f = f x"
  by (rule ext) (simp add: pbind_def preturn_def)

lemma pbind_plift_Inr [simp]: "pbind (plift (Inr x)) f = f x"
  by (rule ext) (simp add: pbind_def plift_def)

lemma pbind_plift_Inl [simp]: "pbind (plift (Inl e)) f w = (Inl e, w)"
  by (simp add: pbind_def plift_def)

lemma pbind_assoc: "pbind (pbind m f) g = pbind m (\<lambda>x. pbind (f x) g)"
  by (rule ext) (simp add: pbind_def split: prod.splits sum.splits)

lemma pbind_unit: "pbind m (\<lambda>_. preturn ()) = (m :: unit prog)"
  by (rule ext) (simp add: pbind_def preturn_def split: prod.splits sum.splits)

lemma pbind_cases:
  obtains (fail) e w' where "m w = (Inl e, w')" "pbind m f w = (Inl e, w')"
        | (ok) x w' where "m w = (Inr x, w')" "pbind m f w = f x w'"
proof (cases "m w")
  case (Pair r w')
  then show ?thesis by (cases r) (auto simp: pbind_def intro: fail ok)
qed

lemma pbind_Inr:
  "pbind m f w = (Inr y, w') \<longleftrightarrow> (\<exists>x w1. m w = (Inr x, w1) \<and> f x w1 = (Inr y, w'))"
  by (auto simp: pbind_def split: prod.splits sum.splits)

lemma plift_Inr: "plift r w = (Inr y, w') \<longleftrightarrow> r = Inr y \<and> w' = w"
  by (auto simp: plift_def)

lemma preturn_Inr: "preturn x w = (Inr y, w') \<longleftrightarrow> x = y \<and> w' = w"
  by (auto simp: preturn_def)

section \<open>The calls a function makes\<close>

lemma emits_preturn [intro!]: "emits P (preturn x)"
  by (simp add: emits_def preturn_def)

lemma emits_plift [intro!]: "emits P (plift r)"
  by (simp add: emits_def plift_def)

lemma emits_pbind [intro!]:
  assumes "emits P m" and "\<And>x. emits P (f x)"
  shows "emits P (pbind m f)"
  unfolding emits_def
proof
  fix w
  from assms(1) obtain evs where m: "trace (snd (m w)) = trace w @ evs" "list_all P evs"
    unfolding emits_def by blast
  show "\<exists>evs. trace (snd (pbind m f w)) = trace w @ evs \<and> list_all P evs"
  proof (cases rule: pbind_cases [of m w f])
    case (fail e w')
    with m show ?thesis by auto
  next
    case (ok x w')
    from assms(2) [of x] obtain evs' where
      "trace (snd (f x w')) = trace w' @ evs'" "list_all P evs'"
      unfolding emits_def by blast
    with m ok show ?thesis by auto
  qed
qed

lemma emits_if [intro!]: "emits P a \<Longrightarrow> emits P b \<Longrightarrow> emits P (if c then a else b)"
  by simp

lemma emits_for_each: "(\<And>x. emits P (f x)) \<Longrightarrow> emits P (for_each xs f)"
  by (induction xs) auto

lemma emits_exists: "P (Exists name) \<Longrightarrow> emits P (os_path_exists E name)"
  by (simp add: emits_def os_path_exists_def)

lemma emits_makedirs: "P (Makedirs name) \<Longrightarrow> emits P (os_makedirs E name)"
  by (simp add: emits_def os_makedirs_def split: prod.splits)

lemma emits_write: "P (Write name text) \<Longrightarrow> emits P (write_file E name text)"
  by (simp add: emits_def write_file_def split: prod.splits)

lemma emits_print: "P (Print line) \<Longrightarrow> emits P (print line)"
  by (simp add: emits_def print_def)

lemma emits_shell: "P (Shell cmd) \<Longrightarrow> emits P (exec_shell E cmd)"
  by (simp add: emits_def exec_shell_def split: prod.splits)

lemma emits_copy_base_repo:
  assumes "\<And>s. P (Exists s)" and "\<And>c. P (Shell c)"
  shows "emits P (copy_base_repo E base app)"
  unfolding copy_base_repo_def
  by (intro emits_pbind emits_plift emits_if emits_preturn emits_for_each emits_exists
      emits_shell assms)

lemma emits_update:
  assumes "\<And>n s. P (Write n s)" and "\<And>c. P (Shell c)"
  shows "emits P (update_form_and_manifest E base app)"
  unfolding update_form_and_manifest_def
  by (intro emits_pbind emits_plift emits_write emits_shell assms)

lemma emits_create_app:
  assumes "\<And>s. P (Exists s)" and "\<And>s. P (Makedirs s)" and "\<And>n s. P (Write n s)"
    and "\<And>c. P (Shell c)"
  shows "emits P (create_app E base app)"
  unfolding create_app_def
  by (intro emits_pbind emits_plift emits_if emits_preturn emits_exists emits_makedirs
      emits_copy_base_repo emits_update assms)

lemma emitsD: "emits P m \<Longrightarrow> \<exists>evs. trace (snd (m w)) = trace w @ evs \<and> list_all P evs"
  by (simp add: emits_def)

section \<open>The gate of create\_app\<close>

lemma create_app_named:
  assumes "field app ''app_name'' = Some (JStr n)"
  shows "create_app E base app =
     pbind (os_path_exists E (dest_of E n)) (\<lambda>present.
       if present then preturn False
       else
         pbind (os_makedirs E (dest_of E n)) (\<lambda>_.
         pbind (copy_base_repo E base app) (\<lambda>_.
         pbind (update_form_and_manifest E base app) (\<lambda>_.
         preturn True))))"
proof -
  from assms have "py_getitem app ''app_name'' = Inr (JStr n)" by (simp add: py_getitem_Inr)
  then show ?thesis unfolding dest_of_def by (simp add: create_app_def os_path_join_def)
qed

lemma create_app_skip:
  assumes "field app ''app_name'' = Some (JStr n)" and "sys_exists E (fs w) (dest_of E n)"
  shows "create_app E base app w = (Inr False, w\<lparr>trace := trace w @ [Exists (dest_of E n)]\<rparr>)"
  using assms(2) unfolding create_app_named [OF assms(1)]
  by (simp add: pbind_def os_path_exists_def preturn_def)

lemma not_False_pbind:
  assumes "\<And>x w. fst (f x w) \<noteq> Inr False"
  shows "fst (pbind m f w) \<noteq> Inr False"
  by (cases rule: pbind_cases [of m w f]) (simp_all add: assms)

lemma create_app_attempt:
  assumes "field app ''app_name'' = Some (JStr n)" and "\<not> sys_exists E (fs w) (dest_of E n)"
  shows "fst (create_app E base app w) \<noteq> Inr False"
    and "\<exists>evs. trace (snd (create_app E base app w)) =
           trace w @ [Exists (dest_of E n), Makedirs (dest_of E n)] @ evs"
proof -
  let ?rest = "pbind (copy_base_repo E base app) (\<lambda>_.
         pbind (update_form_and_manifest E base app) (\<lambda>_. preturn True))"
  let ?w1 = "w\<lparr>trace := trace w @ [Exists (dest_of E n)]\<rparr>"
  have ca: "create_app E base app w = pbind (os_makedirs E (dest_of E n)) (\<lambda>_. ?rest) ?w1"
    using assms(2) unfolding create_app_named [OF assms(1)]
    by (simp add: pbind_def os_path_exists_def)
  have nf: "fst (?rest w') \<noteq> Inr False" for w'
    by (intro not_False_pbind) (simp add: preturn_def)
  show "fst (create_app E base app w) \<noteq> Inr False"
    unfolding ca by (intro not_False_pbind nf)
  have "emits (\<lambda>_. True) ?rest"
    by (intro emits_pbind emits_preturn emits_copy_base_repo emits_update) simp_all
  then have ev: "\<exists>evs. trace (snd (?rest w')) = trace w' @ evs" for w'
    using emitsD by blast
  obtain raised t where mk: "sys_makedirs E (fs w) (dest_of E n) = (raised, t)"
    by (cases "sys_makedirs E (fs w) (dest_of E n)")
  show "\<exists>evs. trace (snd (create_app E base app w)) =
           trace w @ [Exists (dest_of E n), Makedirs (dest_of E n)] @ evs"
  proof (cases raised)
    case (Some e)
    with mk show ?thesis unfolding ca by (simp add: pbind_def os_makedirs_def)
  next
    case None
    let ?w2 = "w\<lparr>fs := t, trace := trace w @ [Exists (dest_of E n), Makedirs (dest_of E n)]\<rparr>"
    from None mk have "create_app E base app w = ?rest ?w2"
      unfolding ca by (simp add: pbind_def os_makedirs_def)
    with ev [of ?w2] show ?thesis by simp
  qed
qed

lemma create_app_refused:
  assumes "field app ''app_name'' = Some (JStr n)" and "\<not> sys_exists E (fs w) (dest_of E n)"
    and "sys_makedirs E (fs w) (dest_of E n) = (Some e, t)"
  shows "create_app E base app w =
           (Inl e, w\<lparr>fs := t, trace := trace w @ [Exists (dest_of E n), Makedirs (dest_of E n)]\<rparr>)"
  using assms(2,3) unfolding create_app_named [OF assms(1)]
  by (simp add: pbind_def os_path_exists_def os_makedirs_def)

text \<open>
  C9, as amended. The skip decision is the answer of \<^verbatim>\<open>os.path.exists\<close> for the
  destination. When it answers True, whatever kind of entry the destination resolves to,
  \<^verbatim>\<open>create_app\<close> returns False after the existence test alone: no other call is made and
  the file system is untouched. When it answers False, \<^verbatim>\<open>create_app\<close> does not return
  False: it goes on to \<^verbatim>\<open>os.makedirs\<close>, and an exception of that call ends
  \<^verbatim>\<open>create_app\<close> with that exception. This is what happens for an entry that
  \<^verbatim>\<open>os.path.exists\<close> does not see, a symbolic link whose target is missing:
  \<^verbatim>\<open>os.makedirs\<close> raises FileExistsError.
\<close>

theorem skip_gate:
  assumes "field app ''app_name'' = Some (JStr n)"
  shows "(sys_exists E (fs w) (dest_of E n) \<longrightarrow>
            create_app E base app w =
              (Inr False, w\<lparr>trace := trace w @ [Exists (dest_of E n)]\<rparr>)) \<and>
         (\<not> sys_exists E (fs w) (dest_of E n) \<longrightarrow>
            fst (create_app E base app w) \<noteq> Inr False \<and>
            (\<exists>evs. trace (snd (create_app E base app w)) =
               trace w @ [Exists (dest_of E n), Makedirs (dest_of E n)] @ evs)) \<and>
         (\<forall>e t. \<not> sys_exists E (fs w) (dest_of E n) \<and>
                 sys_makedirs E (fs w) (dest_of E n) = (Some e, t) \<longrightarrow>
            create_app E base app w =
              (Inl e, w\<lparr>fs := t,
                        trace := trace w @ [Exists (dest_of E n), Makedirs (dest_of E n)]\<rparr>))"
  using create_app_skip [OF assms] create_app_attempt [OF assms] create_app_refused [OF assms]
  by blast

lemmas eval_path = comps_def path_join_def APPS_DIR_def dest_of_def
  posix_def posix_exists_def posix_stat_def walk.simps absolute_def
  posix_makedirs.simps [of "Dir es" "c # cs" for es c cs]
  posix_mkdir_def mk_parts_def py_split_def errno_error_def Let_def

lemma cx_dest: "dest_of ex_env ''myapp'' = ''/srv/apps/myapp''"
  by (simp add: eval_path ex_env_def)

lemma cx_entry: "lookup (fs cx_world) [''srv'', ''apps'', ''myapp''] = Some (Symlink ''/srv/gone'')"
  by (simp add: cx_world_def)

lemma cx_absent: "\<not> sys_exists ex_env (fs cx_world) ''/srv/apps/myapp''"
  by (simp add: eval_path ex_env_def cx_world_def)

lemma cx_makedirs:
  "sys_makedirs ex_env (fs cx_world) ''/srv/apps/myapp'' =
     (Some (FileExistsError ''/srv/apps/myapp''), fs cx_world)"
  by (simp add: eval_path ex_env_def cx_world_def)

lemma ex_app_plain_name: "field ex_app_plain ''app_name'' = Some (JStr ''myapp'')"
  by (simp add: field_def ex_app_plain_def)

lemma file_present: "sys_exists ex_env (fs file_world) ''/srv/apps/myapp''"
  by (simp add: eval_path ex_env_def file_world_def)

theorem skip_gate_witness:
  "field ex_app_plain ''app_name'' = Some (JStr ''myapp'') \<and>
   sys_exists ex_env (fs file_world) (dest_of ex_env ''myapp'') \<and>
   create_app ex_env ex_base ex_app_plain file_world =
     (Inr False, file_world\<lparr>trace := trace file_world @ [Exists ''/srv/apps/myapp'']\<rparr>) \<and>
   \<not> sys_exists ex_env (fs cx_world) (dest_of ex_env ''myapp'') \<and>
   sys_makedirs ex_env (fs cx_world) (dest_of ex_env ''myapp'') =
     (Some (FileExistsError ''/srv/apps/myapp''), fs cx_world) \<and>
   fst (create_app ex_env ex_base ex_app_plain cx_world) \<noteq> Inr False \<and>
   create_app ex_env ex_base ex_app_plain cx_world =
     (Inl (FileExistsError ''/srv/apps/myapp''),
      cx_world\<lparr>fs := fs cx_world,
                trace := trace cx_world @
                  [Exists ''/srv/apps/myapp'', Makedirs ''/srv/apps/myapp'']\<rparr>)"
  using skip_gate [OF ex_app_plain_name, of ex_env file_world ex_base]
    skip_gate [OF ex_app_plain_name, of ex_env cx_world ex_base]
    ex_app_plain_name file_present cx_absent cx_makedirs
  by (simp add: cx_dest)

theorem skip_any_entry_counterexample:
  "lookup (fs cx_world) [''srv'', ''apps'', ''myapp''] = Some (Symlink ''/srv/gone'') \<and>
   fst (create_app ex_env ex_base ex_app_plain cx_world) = Inl (FileExistsError ''/srv/apps/myapp'')"
  using create_app_refused [OF ex_app_plain_name, of ex_env cx_world _ _ ex_base]
    cx_entry cx_absent cx_makedirs
  by (simp add: cx_dest)

section \<open>The report of a run\<close>

lemma main_loop_Cons:
  "main_loop E data (app # rest) = pbind (main_loop E data [app]) (\<lambda>_. main_loop E data rest)"
  by (simp add: pbind_assoc)

lemma printed_append:
  "trace w' = trace w @ evs \<Longrightarrow>
   printed w' = printed w @ concat (map (\<lambda>e. case e of Print line \<Rightarrow> [line] | _ \<Rightarrow> []) evs)"
  by (simp add: printed_def)

lemma create_app_silent: "printed (snd (create_app E base app w)) = printed w"
proof -
  have "emits (\<lambda>e. \<forall>line. e \<noteq> Print line) (create_app E base app)"
    by (rule emits_create_app) simp_all
  from emitsD [OF this, of w] obtain evs
    where evs: "trace (snd (create_app E base app w)) = trace w @ evs"
      and np: "list_all (\<lambda>e. \<forall>line. e \<noteq> Print line) evs"
    by blast
  from np have "concat (map (\<lambda>e. case e of Print line \<Rightarrow> [line] | _ \<Rightarrow> []) evs) = []"
    by (induction evs) (auto split: event.splits)
  with printed_append [OF evs] show ?thesis by simp
qed

lemma create_app_InrD:
  assumes "create_app E base app w = (Inr created, w1)"
  shows "\<exists>n. field app ''app_name'' = Some (JStr n) \<and>
             created = (\<not> sys_exists E (fs w) (dest_of E n))"
proof -
  from assms obtain v d where v: "py_getitem app ''app_name'' = Inr v"
    and d: "os_path_join (APPS_DIR E) v = Inr d"
    unfolding create_app_def by (auto simp: pbind_Inr plift_Inr)
  from d obtain n where n: "v = JStr n" by (cases v) (auto simp: os_path_join_def)
  with v have f: "field app ''app_name'' = Some (JStr n)" by (simp add: py_getitem_Inr)
  show ?thesis
  proof (cases "sys_exists E (fs w) (dest_of E n)")
    case True
    from create_app_skip [OF f True, of base] assms f True show ?thesis by auto
  next
    case False
    from create_app_attempt(1) [OF f False, of base] assms f False show ?thesis
      by (cases created) auto
  qed
qed

lemma create_app_generated:
  assumes "create_app E base app w = (Inr True, w1)"
  shows "\<exists>n t w2. field app ''app_name'' = Some (JStr n) \<and>
           \<not> sys_exists E (fs w) (dest_of E n) \<and>
           sys_makedirs E (fs w) (dest_of E n) = (None, t) \<and>
           copy_base_repo E base app
             (w\<lparr>fs := t, trace := trace w @ [Exists (dest_of E n), Makedirs (dest_of E n)]\<rparr>)
             = (Inr (), w2) \<and>
           update_form_and_manifest E base app w2 = (Inr (), w1)"
proof -
  from create_app_InrD [OF assms] obtain n where n: "field app ''app_name'' = Some (JStr n)"
    and a: "\<not> sys_exists E (fs w) (dest_of E n)" by auto
  let ?d = "dest_of E n"
  let ?w0 = "w\<lparr>trace := trace w @ [Exists ?d]\<rparr>"
  from assms a have "pbind (os_makedirs E ?d) (\<lambda>_.
         pbind (copy_base_repo E base app) (\<lambda>_.
         pbind (update_form_and_manifest E base app) (\<lambda>_. preturn True))) ?w0 = (Inr True, w1)"
    unfolding create_app_named [OF n] by (simp add: pbind_def os_path_exists_def)
  then obtain wa w2 where mk: "os_makedirs E ?d ?w0 = (Inr (), wa)"
    and cp: "copy_base_repo E base app wa = (Inr (), w2)"
    and up: "update_form_and_manifest E base app w2 = (Inr (), w1)"
    by (auto simp: pbind_Inr preturn_Inr)
  obtain raised t where s: "sys_makedirs E (fs w) ?d = (raised, t)"
    by (cases "sys_makedirs E (fs w) ?d")
  with mk have "raised = None"
    and "wa = w\<lparr>fs := t, trace := trace w @ [Exists ?d, Makedirs ?d]\<rparr>"
    by (auto simp: os_makedirs_def split: option.splits)
  with n a s cp up show ?thesis by blast
qed

lemma main_loop_one:
  assumes "main_loop E data [app] w = (Inr (), w1)"
  shows "printed w1 = printed w @
           [if sys_exists E (fs w) (dest_of E (name_of app))
            then ''Skipped '' @ name_of app @ '' -- already created''
            else ''Created '' @ name_of app]"
proof -
  from assms obtain base created w' v where
    ca: "create_app E base app w = (Inr created, w')"
    and v: "py_getitem app ''app_name'' = Inr v"
    and pr: "print (if created then ''Created '' @ py_str v
                   else ''Skipped '' @ py_str v @ '' -- already created'') w' = (Inr (), w1)"
    by (auto simp: pbind_Inr plift_Inr preturn_Inr)
  from create_app_InrD [OF ca] obtain n where n: "field app ''app_name'' = Some (JStr n)"
    and c: "created = (\<not> sys_exists E (fs w) (dest_of E n))" by blast
  from n v have vn: "v = JStr n" by (simp add: py_getitem_Inr)
  from n have nm: "name_of app = n" by (simp add: name_of_def)
  from create_app_silent [of E base app w] ca have "printed w' = printed w" by simp
  with pr show ?thesis
    by (auto simp: print_def printed_def vn nm c py_str_def)
qed

lemma main_loop_one_raises:
  assumes "main_loop E data [app] w = (Inl e, w1)"
  shows "printed w1 = printed w"
proof (cases "py_getitem data ''base''")
  case (Inl e')
  with assms show ?thesis by simp
next
  case (Inr base)
  obtain r w' where ca: "create_app E base app w = (r, w')"
    by (cases "create_app E base app w")
  from create_app_silent [of E base app w] ca have s: "printed w' = printed w" by simp
  show ?thesis
  proof (cases r)
    case (Inl e')
    with assms Inr ca s show ?thesis by (simp add: pbind_def)
  next
    case (Inr created)
    with ca create_app_InrD [of E base app w created w'] obtain n
      where "field app ''app_name'' = Some (JStr n)" by blast
    then have "py_getitem app ''app_name'' = Inr (JStr n)" by (simp add: py_getitem_Inr)
    with assms \<open>py_getitem data ''base'' = Inr base\<close> ca Inr show ?thesis
      by (simp add: pbind_def print_def preturn_def)
  qed
qed

lemma main_loop_report:
  "printed (snd (main_loop E data apps w)) = printed w @ report E data apps w"
proof (induction apps arbitrary: w)
  case Nil
  then show ?case by (simp add: preturn_def)
next
  case (Cons app rest)
  obtain r w1 where one: "main_loop E data [app] w = (r, w1)"
    by (cases "main_loop E data [app] w")
  show ?case
  proof (cases r)
    case (Inl e)
    with one main_loop_one_raises [of E data app w e w1]
    show ?thesis unfolding main_loop_Cons [of E data app rest]
      by (simp add: pbind_def)
  next
    case (Inr u)
    with one have one': "main_loop E data [app] w = (Inr (), w1)" by simp
    have "main_loop E data (app # rest) w = main_loop E data rest w1"
      unfolding main_loop_Cons [of E data app rest] using one' by (simp add: pbind_def)
    with Cons.IH [of w1] main_loop_one [OF one'] one' show ?thesis by simp
  qed
qed

lemma report_length:
  "length (report E data apps w) \<le> length apps \<and>
   ((length (report E data apps w) = length apps) = (fst (main_loop E data apps w) = Inr ()))"
proof (induction apps arbitrary: w)
  case Nil
  then show ?case by (simp add: preturn_def)
next
  case (Cons app rest)
  obtain r w1 where one: "main_loop E data [app] w = (r, w1)"
    by (cases "main_loop E data [app] w")
  show ?case
  proof (cases r)
    case (Inl e)
    with one show ?thesis unfolding main_loop_Cons [of E data app rest]
      by (simp add: pbind_def)
  next
    case (Inr u)
    with one have one': "main_loop E data [app] w = (Inr (), w1)" by simp
    have "main_loop E data (app # rest) w = main_loop E data rest w1"
      unfolding main_loop_Cons [of E data app rest] using one' by (simp add: pbind_def)
    with Cons.IH [of w1] one' show ?thesis by simp
  qed
qed

lemma main_loaded:
  assumes "load_apps doc = Inr doc"
  shows "main E doc w = main_loop E doc (apps_of doc) w"
proof -
  from assms obtain apps xs where a: "py_getitem doc ''apps'' = Inr apps"
    and i: "py_iter apps = Inr xs"
    by (auto simp: load_apps_def ebind_Inr)
  from a have f: "field doc ''apps'' = Some apps" by (simp add: py_getitem_Inr)
  from a i have "main E doc w = main_loop E doc xs w"
    by (simp add: main_def assms)
  with f i show ?thesis by (simp add: apps_of_def)
qed

lemma main_report:
  "printed (snd (main E doc w)) = printed w @ run_report E doc w \<and>
   ((fst (main E doc w) = Inr ()) =
      (load_apps doc = Inr doc \<and> length (run_report E doc w) = length (apps_of doc)))"
proof (cases "load_apps doc")
  case (Inl e)
  then show ?thesis by (simp add: main_aborts run_report_def)
next
  case (Inr d)
  with load_apps_unchanged [OF Inr] have l: "load_apps doc = Inr doc" by simp
  with main_loaded [OF l, of E w] main_loop_report [of E doc "apps_of doc" w]
    report_length [of E doc "apps_of doc" w]
  show ?thesis by (simp add: run_report_def)
qed

text \<open>
  C6, as amended. The lines a run prints are the report: in document order, one line for
  each app whose processing returns, \<^verbatim>\<open>Skipped <app_name> -- already created\<close> when
  \<^verbatim>\<open>os.path.exists\<close> answers True for its destination at the moment the app is reached and
  \<^verbatim>\<open>Created <app_name>\<close> when it answers False; the report ends at the first app whose
  processing raises, so that app and those after it get no line, and nothing is printed
  when the sanity check fails. There is exactly one line for every app of the list if and
  only if the run completes. For a skipped app \<^verbatim>\<open>create_app\<close> makes the existence test and
  nothing else: no directory is created, no command is run, the file system is left as it
  was. \<^verbatim>\<open>create_app\<close> returns True, which is what prints \<^verbatim>\<open>Created\<close>, only when the
  destination did not exist and \<^verbatim>\<open>os.makedirs\<close>, \<^verbatim>\<open>copy_base_repo\<close> and
  \<^verbatim>\<open>update_form_and_manifest\<close> have all returned normally.
\<close>

theorem one_line_per_app:
  "printed (snd (main E doc w)) = printed w @ run_report E doc w \<and>
   length (run_report E doc w) \<le> length (apps_of doc) \<and>
   ((fst (main E doc w) = Inr ()) =
      (load_apps doc = Inr doc \<and> length (run_report E doc w) = length (apps_of doc))) \<and>
   (field app ''app_name'' = Some (JStr n) \<and> sys_exists E (fs w) (dest_of E n) \<longrightarrow>
      create_app E base app w = (Inr False, w\<lparr>trace := trace w @ [Exists (dest_of E n)]\<rparr>)) \<and>
   (\<forall>w1. create_app E base app w = (Inr True, w1) \<longrightarrow>
      (\<exists>n t w2. field app ''app_name'' = Some (JStr n) \<and>
         \<not> sys_exists E (fs w) (dest_of E n) \<and>
         sys_makedirs E (fs w) (dest_of E n) = (None, t) \<and>
         copy_base_repo E base app
           (w\<lparr>fs := t, trace := trace w @ [Exists (dest_of E n), Makedirs (dest_of E n)]\<rparr>)
           = (Inr (), w2) \<and>
         update_form_and_manifest E base app w2 = (Inr (), w1)))"
proof -
  have "length (run_report E doc w) \<le> length (apps_of doc)"
    using report_length [of E doc "apps_of doc" w] by (simp add: run_report_def)
  with main_report [of E doc w] create_app_skip [of app n E w base]
    create_app_generated [of E base app w]
  show ?thesis by blast
qed

section \<open>An example run\<close>

lemma ex_base_items:
  "py_getitem ex_base ''git_dir'' = Inr (JStr ''base1'')"
  "py_getitem ex_base ''git_branch'' = Inr (JStr ''main'')"
  "py_getitem ex_base ''git_url'' = Inr (JStr ''https://example/repo.git'')"
  "py_getitem ex_base ''app_type'' = Inr (JStr ''vm'')"
  by (simp_all add: py_getitem_def ex_base_def)

lemma ex_app_plain_item: "py_getitem ex_app_plain ''app_name'' = Inr (JStr ''myapp'')"
  by (simp add: py_getitem_def ex_app_plain_def)

lemmas eval_prog = pbind_def
  plift_def preturn_def create_app_def copy_base_repo_def update_form_and_manifest_def
  exec_shell_def os_path_exists_def os_makedirs_def write_file_def print_def
  os_path_join_def py_str_def

lemmas eval_shell = posix_shell_def run_words_def sh_words_def plain_word_def plain_char_def
  git_clone_def cp_R_def cp_place_def erb_def rm_def resolve_leaf_def read_file_def
  posix_write_def open_w.simps

lemma ex_create:
  "create_app ex_env ex_base ex_app_plain ex_world = (Inr True, ex_after)"
  by (simp add: eval_prog eval_shell eval_path ex_erb_vars_plain ex_base_items ex_app_plain_item
      ex_env_def ex_world_def ex_repo_def ex_after_def)

lemma ex_load: "load_apps ex_doc = Inr ex_doc"
  by (simp add: load_apps_def ex_doc_def ex_base_def ex_app_plain_def base_keys_def app_keys_def
      ebind_def py_getitem_def py_in_def py_iter_def)

lemma ex_doc_items:
  "py_getitem ex_doc ''apps'' = Inr (JArr [ex_app_plain])"
  "py_getitem ex_doc ''base'' = Inr ex_base"
  by (simp_all add: py_getitem_def ex_doc_def)

lemma ex_main:
  "main ex_env ex_doc ex_world =
     (Inr (), ex_after\<lparr>trace := trace ex_after @ [Print ''Created myapp'']\<rparr>)"
  by (simp add: main_def ex_load ex_doc_items py_iter_def pbind_def plift_def preturn_def
      ex_create ex_app_plain_item print_def py_str_def)

lemma ex_after_exists: "sys_exists ex_env (fs ex_after) (dest_of ex_env ''myapp'')"
  by (simp add: eval_path ex_after_def ex_env_def)

lemma ex_apps_of: "apps_of ex_doc = [ex_app_plain]"
  by (simp add: apps_of_def field_def ex_doc_def py_iter_def)

lemma ex_printed:
  "printed (ex_after\<lparr>trace := trace ex_after @ [Print ''Created myapp'']\<rparr>) = [''Created myapp'']"
  by (simp add: printed_def ex_after_def)

theorem one_line_per_app_witness:
  "main ex_env ex_doc ex_world =
     (Inr (), ex_after\<lparr>trace := trace ex_after @ [Print ''Created myapp'']\<rparr>) \<and>
   printed (snd (main ex_env ex_doc ex_world)) = [''Created myapp''] \<and>
   run_report ex_env ex_doc ex_world = [''Created myapp''] \<and>
   load_apps ex_doc = Inr ex_doc \<and>
   length (apps_of ex_doc) = 1 \<and>
   field ex_app_plain ''app_name'' = Some (JStr ''myapp'') \<and>
   sys_exists ex_env (fs ex_after) (dest_of ex_env ''myapp'') \<and>
   create_app ex_env ex_base ex_app_plain ex_after =
     (Inr False, ex_after\<lparr>trace := trace ex_after @ [Exists (dest_of ex_env ''myapp'')]\<rparr>) \<and>
   create_app ex_env ex_base ex_app_plain ex_world = (Inr True, ex_after) \<and>
   \<not> sys_exists ex_env (fs ex_world) (dest_of ex_env ''myapp'')"
proof -
  have p: "printed ex_world = []"
    by (simp add: printed_def ex_world_def)
  from one_line_per_app [of ex_env ex_doc ex_world ex_app_plain "''myapp''" ex_base]
  have r: "run_report ex_env ex_doc ex_world = [''Created myapp'']"
    and g: "\<exists>n. field ex_app_plain ''app_name'' = Some (JStr n) \<and>
              \<not> sys_exists ex_env (fs ex_world) (dest_of ex_env n)"
    using ex_main ex_printed p ex_create by auto
  from g have a: "\<not> sys_exists ex_env (fs ex_world) (dest_of ex_env ''myapp'')"
    by (simp add: ex_app_plain_name)
  from one_line_per_app [of ex_env ex_doc ex_after ex_app_plain "''myapp''" ex_base]
    ex_app_plain_name ex_after_exists
  have s: "create_app ex_env ex_base ex_app_plain ex_after =
     (Inr False, ex_after\<lparr>trace := trace ex_after @ [Exists (dest_of ex_env ''myapp'')]\<rparr>)"
    by simp
  from r a s show ?thesis
    using ex_main ex_printed ex_load ex_apps_of ex_app_plain_name ex_after_exists ex_create
    by simp
qed

lemma ex_number_raises: "create_app E base ex_app_number w = (Inl TypeError, w)"
  by (simp add: create_app_def py_getitem_def ex_app_number_def os_path_join_def)

lemma ex_load_abort: "load_apps ex_doc_abort = Inr ex_doc_abort"
  by (simp add: load_apps_def ex_doc_abort_def ex_base_def ex_app_plain_def ex_app_number_def
      base_keys_def app_keys_def ebind_def py_getitem_def py_in_def py_iter_def)

lemma ex_doc_abort_items:
  "py_getitem ex_doc_abort ''apps'' = Inr (JArr [ex_app_plain, ex_app_number])"
  "py_getitem ex_doc_abort ''base'' = Inr ex_base"
  by (simp_all add: py_getitem_def ex_doc_abort_def)

lemma ex_main_abort:
  "main ex_env ex_doc_abort ex_world =
     (Inl TypeError, ex_after\<lparr>trace := trace ex_after @ [Print ''Created myapp'']\<rparr>)"
  by (simp add: main_def ex_load_abort ex_doc_abort_items py_iter_def pbind_def plift_def
      preturn_def ex_create ex_number_raises ex_app_plain_item print_def py_str_def)

lemma ex_apps_of_abort: "apps_of ex_doc_abort = [ex_app_plain, ex_app_number]"
  by (simp add: apps_of_def field_def ex_doc_abort_def py_iter_def)

theorem one_line_per_app_counterexample:
  "load_apps ex_doc_abort = Inr ex_doc_abort \<and>
   length (apps_of ex_doc_abort) = 2 \<and>
   fst (main ex_env ex_doc_abort ex_world) = Inl TypeError \<and>
   printed (snd (main ex_env ex_doc_abort ex_world)) = [''Created myapp'']"
  using ex_load_abort ex_apps_of_abort ex_main_abort ex_printed by simp

end
